theory Spec2Isabelle
  imports Complex_Main "HOL-Library.Word"
begin

unbundle bit_operations_syntax

section \<open>Data model\<close>

text \<open>A Go \<open>byte\<close> is an unsigned 8-bit integer; a \<open>[]byte\<close> is a list of them.
  Go strings are byte sequences as well; they are modelled as \<open>string\<close>
  (a list of 8-bit characters).\<close>

type_synonym byte = "8 word"

section \<open>Package backend: sampling store host matching\<close>

text \<open>\<open>matchHost(host, pattern)\<close> of the sampling traffic store
  (pkg/backend): a leading \<open>*\<close> turns the pattern into a suffix test, after one
  leading dot of the remainder has been removed.\<close>

definition backend_matchHost :: "string \<Rightarrow> string \<Rightarrow> bool" where
  "backend_matchHost host pattern =
     (if pattern = [] then False
      else if hd pattern = CHR ''*'' then
        (let suffix0 = tl pattern;
             suffix = (if length suffix0 > 0 \<and> hd suffix0 = CHR ''.'' then tl suffix0 else suffix0)
         in length host \<ge> length suffix \<and> drop (length host - length suffix) host = suffix)
      else host = pattern)"

text \<open>\<open>matchWildcard(pattern, host)\<close> of the proxy engine (package proxy), used for
  \<open>SkipHosts\<close>: the remainder after \<open>*\<close> is kept whole, dot included.\<close>

definition matchWildcard :: "string \<Rightarrow> string \<Rightarrow> bool" where
  "matchWildcard pattern host =
     (if length pattern = 0 then False
      else if hd pattern = CHR ''*'' then
        (let suffix = tl pattern
         in length host \<ge> length suffix \<and> drop (length host - length suffix) host = suffix)
      else pattern = host)"

section \<open>Package contentdetect: UTF-8 validation\<close>

text \<open>The \<open>switch\<close> of \<open>isValidUTF8\<close> on the lead byte: the sequence length and the
  range \<open>[min, max]\<close> allowed for its continuation bytes, or \<open>None\<close> where the
  source returns \<open>false\<close> at once.\<close>

definition utf8_lead :: "byte \<Rightarrow> (nat \<times> byte \<times> byte) option" where
  "utf8_lead b =
     (if b AND 0xE0 = 0xC0 then (if b < 0xC2 then None else Some (2, 0x80, 0xBF))
      else if b AND 0xF0 = 0xE0 then Some (3, 0x80, 0xBF)
      else if b AND 0xF8 = 0xF0 then (if b > 0xF4 then None else Some (4, 0x80, 0xBF))
      else None)"

text \<open>The outer loop of \<open>isValidUTF8\<close>, from index \<open>i\<close>.\<close>

function isValidUTF8_from :: "byte list \<Rightarrow> nat \<Rightarrow> bool" where
  "isValidUTF8_from data i =
     (if i < length data then
        (if data ! i < 0x80 then isValidUTF8_from data (i + 1)
         else
           (case utf8_lead (data ! i) of
              None \<Rightarrow> False
            | Some (n, lo, hi) \<Rightarrow>
                if i + n > length data then False
                else if list_ex (\<lambda>j. data ! (i + j) < lo \<or> data ! (i + j) > hi) [1..<n] then False
                else isValidUTF8_from data (i + n)))
      else True)"
  by pat_completeness auto
termination
  by (relation "measure (\<lambda>(data, i). length data - i)") (auto simp: utf8_lead_def split: if_splits)

declare isValidUTF8_from.simps [simp del]

definition isValidUTF8 :: "byte list \<Rightarrow> bool" where
  "isValidUTF8 data = isValidUTF8_from data 0"

section \<open>Package contentdetect: heuristic classification\<close>

text \<open>\<open>ContentInfo\<close> and \<open>Options\<close> as the structs declare them. The two
  \<open>float64\<close> fields are modelled by rationals: every confidence the package returns is a
  decimal constant, and the ratios \<open>float64(count) / float64(totalBytes)\<close> are compared
  with decimal constants only. For counts below \<open>2^53\<close> the conversion to \<open>float64\<close>
  is exact and the correctly rounded quotient lies on the same side of (or on) the
  rounded constant as the exact quotient does of the decimal one, so the comparison
  of rationals decides as the comparison of floats. \<open>HighBitThreshold\<close> stands for
  the decimal value that was written in the configuration.\<close>

record ContentInfo =
  ci_IsBinary :: bool
  ci_IsText :: bool
  ci_MIMEType :: string
  ci_Extension :: string
  ci_Method :: string
  ci_Confidence :: rat

record Options =
  TrustContentType :: bool
  HighBitThreshold :: rat
  CheckBytes :: int

definition DefaultOptions :: Options where
  "DefaultOptions = \<lparr>TrustContentType = True, HighBitThreshold = 3 / 10, CheckBytes = 512\<rparr>"

text \<open>A Go run-time panic.\<close>

datatype panic = SliceBoundsOutOfRange | CloseOfClosedChannel

text \<open>The five counters of the byte loop of \<open>detectByHeuristic\<close> and the \<open>switch\<close>
  that feeds them, case by case in the order of the source.\<close>

record byte_counts =
  nullBytes :: nat
  controlBytes :: nat
  highBitBytes :: nat
  printableBytes :: nat
  whitespace :: nat

definition count_byte :: "byte_counts \<Rightarrow> byte \<Rightarrow> byte_counts" where
  "count_byte c b =
     (if b = 0 then c\<lparr>nullBytes := nullBytes c + 1\<rparr>
      else if b < 0x09 then c\<lparr>controlBytes := controlBytes c + 1\<rparr>
      else if b = 0x09 \<or> b = 0x0A \<or> b = 0x0D then
        c\<lparr>whitespace := whitespace c + 1, printableBytes := printableBytes c + 1\<rparr>
      else if b < 0x20 then c\<lparr>controlBytes := controlBytes c + 1\<rparr>
      else if b < 0x7F then c\<lparr>printableBytes := printableBytes c + 1\<rparr>
      else if b = 0x7F then c\<lparr>controlBytes := controlBytes c + 1\<rparr>
      else c\<lparr>highBitBytes := highBitBytes c + 1\<rparr>)"

definition count_bytes :: "byte list \<Rightarrow> byte_counts" where
  "count_bytes sample =
     foldl count_byte
       \<lparr>nullBytes = 0, controlBytes = 0, highBitBytes = 0, printableBytes = 0, whitespace = 0\<rparr>
       sample"

text \<open>\<open>float64(count) / float64(totalBytes) > limit\<close>. With \<open>totalBytes = 0\<close> the
  count is 0 as well, the Go quotient is NaN and every comparison with it is false.\<close>

definition ratio_exceeds :: "nat \<Rightarrow> nat \<Rightarrow> rat \<Rightarrow> bool" where
  "ratio_exceeds count totalBytes limit =
     (totalBytes \<noteq> 0 \<and> of_nat count / of_nat totalBytes > limit)"

definition isWhitespace :: "byte \<Rightarrow> bool" where
  "isWhitespace b = (b = 0x20 \<or> b = 0x09 \<or> b = 0x0A \<or> b = 0x0D)"

text \<open>The scanning loop of \<open>looksLikeJSON\<close> over the bytes after the opening bracket,
  with its three loop variables; the empty list is the fall-through after the loop.\<close>

fun json_scan :: "byte \<Rightarrow> byte \<Rightarrow> int \<Rightarrow> bool \<Rightarrow> bool \<Rightarrow> byte list \<Rightarrow> bool" where
  "json_scan opening closing depth inString escaped [] = (depth > 0 \<and> depth < 100)"
| "json_scan opening closing depth inString escaped (b # rest) =
     (if escaped then json_scan opening closing depth inString False rest
      else if b = 0x5C \<and> inString then json_scan opening closing depth inString True rest
      else if b = 0x22 then json_scan opening closing depth (\<not> inString) escaped rest
      else if inString then json_scan opening closing depth inString escaped rest
      else if b = opening then json_scan opening closing (depth + 1) inString escaped rest
      else if b = closing then
        (if depth - 1 = 0 then list_all isWhitespace rest
         else json_scan opening closing (depth - 1) inString escaped rest)
      else json_scan opening closing depth inString escaped rest)"

definition looksLikeJSON :: "byte list \<Rightarrow> bool" where
  "looksLikeJSON data =
     (case dropWhile isWhitespace data of
        [] \<Rightarrow> False
      | b # rest \<Rightarrow>
          if b \<noteq> 0x7B \<and> b \<noteq> 0x5B then False
          else json_scan b (if b = 0x5B then 0x5D else 0x7D) 1 False False rest)"

definition heuristic_info :: "bool \<Rightarrow> string \<Rightarrow> string \<Rightarrow> rat \<Rightarrow> ContentInfo" where
  "heuristic_info binary mime ext conf =
     \<lparr>ci_IsBinary = binary, ci_IsText = \<not> binary, ci_MIMEType = mime, ci_Extension = ext,
      ci_Method = ''heuristic'', ci_Confidence = conf\<rparr>"

text \<open>\<open>detectByHeuristic\<close>. \<open>data[:checkLen]\<close> panics for a negative
  \<open>CheckBytes\<close>.\<close>

definition detectByHeuristic :: "byte list \<Rightarrow> Options \<Rightarrow> panic + ContentInfo" where
  "detectByHeuristic data opts =
     (if length data = 0 then Inr (heuristic_info False [] [] (1 / 2))
      else
        let checkLen = (if CheckBytes opts > int (length data) then int (length data)
                        else CheckBytes opts)
        in if checkLen < 0 then Inl SliceBoundsOutOfRange
        else
          let sample = take (nat checkLen) data;
              c = count_bytes sample;
              totalBytes = length sample
          in if nullBytes c > 0 \<and> ratio_exceeds (nullBytes c) totalBytes (1 / 100)
               then Inr (heuristic_info True [] [] (85 / 100))
             else if ratio_exceeds (controlBytes c) totalBytes (5 / 100)
               then Inr (heuristic_info True [] [] (80 / 100))
             else if ratio_exceeds (highBitBytes c) totalBytes (HighBitThreshold opts)
               then (if isValidUTF8 sample
                     then Inr (heuristic_info False ''text/plain'' [] (70 / 100))
                     else Inr (heuristic_info True [] [] (75 / 100)))
             else if looksLikeJSON sample
               then Inr (heuristic_info False ''application/json'' ''json'' (75 / 100))
             else if ratio_exceeds (printableBytes c) totalBytes (85 / 100)
               then Inr (heuristic_info False ''text/plain'' ''txt'' (70 / 100))
             else Inr (heuristic_info True [] [] (50 / 100)))"

text \<open>The rules of the classifier as the specification words them, over a sample:
  the verdict (is-binary, confidence). Nothing in them is taken from the code. The
  byte classes are the ones the specification names: null, control (C0 controls other
  than tab, line feed and carriage return, and DEL), high-bit (\<open>0x80\<close> and above)
  and printable (space to tilde, and the three whitespace controls).\<close>

definition is_null_byte :: "byte \<Rightarrow> bool" where
  "is_null_byte b = (b = 0)"

definition is_control_byte :: "byte \<Rightarrow> bool" where
  "is_control_byte b =
     (b \<noteq> 0 \<and> (b < 0x20 \<and> b \<noteq> 0x09 \<and> b \<noteq> 0x0A \<and> b \<noteq> 0x0D \<or> b = 0x7F))"

definition is_highbit_byte :: "byte \<Rightarrow> bool" where
  "is_highbit_byte b = (0x80 \<le> b)"

definition is_printable_byte :: "byte \<Rightarrow> bool" where
  "is_printable_byte b = (b = 0x09 \<or> b = 0x0A \<or> b = 0x0D \<or> 0x20 \<le> b \<and> b < 0x7F)"

definition byte_ratio :: "(byte \<Rightarrow> bool) \<Rightarrow> byte list \<Rightarrow> rat" where
  "byte_ratio P sample = of_nat (length (filter P sample)) / of_nat (length sample)"

text \<open>Valid UTF-8 as the specification has it: a sequence of encodings, each an ASCII
  byte or a lead byte with its one, two or three continuation bytes \<open>80..BF\<close>.
  Rejected are overlong encodings (leads \<open>C0\<close> and \<open>C1\<close>, \<open>E0\<close> before
  \<open>80..9F\<close>, \<open>F0\<close> before \<open>80..8F\<close>), invalid start bytes (a continuation
  byte or \<open>F8..FF\<close> where an encoding starts), 4-byte leads above \<open>F4\<close>, and
  sequences cut short.\<close>

definition is_continuation_byte :: "byte \<Rightarrow> bool" where
  "is_continuation_byte b = (0x80 \<le> b \<and> b \<le> 0xBF)"

fun utf8_wellformed :: "byte list \<Rightarrow> bool" where
  "utf8_wellformed [] = True"
| "utf8_wellformed (b # rest) =
     (if b < 0x80 then utf8_wellformed rest
      else if 0xC2 \<le> b \<and> b \<le> 0xDF then
        (case rest of
           c1 # r \<Rightarrow> is_continuation_byte c1 \<and> utf8_wellformed r
         | _ \<Rightarrow> False)
      else if 0xE0 \<le> b \<and> b \<le> 0xEF then
        (case rest of
           c1 # c2 # r \<Rightarrow>
             is_continuation_byte c1 \<and> is_continuation_byte c2
             \<and> (if b = 0xE0 then 0xA0 \<le> c1 else True) \<and> utf8_wellformed r
         | _ \<Rightarrow> False)
      else if 0xF0 \<le> b \<and> b \<le> 0xF4 then
        (case rest of
           c1 # c2 # c3 # r \<Rightarrow>
             is_continuation_byte c1 \<and> is_continuation_byte c2 \<and> is_continuation_byte c3
             \<and> (if b = 0xF0 then 0x90 \<le> c1 else True) \<and> utf8_wellformed r
         | _ \<Rightarrow> False)
      else False)"

text \<open>Looking like JSON as the specification has it. After leading white space
  comes an opening \<open>{\<close> or \<open>[\<close>. \<open>bracket_depths\<close> is the nesting depth after
  each following byte, counting the brackets of the opening kind outside string
  literals. The text is balanced when the depth comes back to 0, and then only white
  space may follow that closing bracket; it is truncated but plausible when the depth
  never comes back to 0 and ends below 100.\<close>

definition json_whitespace :: "byte \<Rightarrow> bool" where
  "json_whitespace b = (b \<in> set [0x20, 0x09, 0x0A, 0x0D])"

fun bracket_depths :: "byte \<Rightarrow> byte \<Rightarrow> int \<Rightarrow> bool \<Rightarrow> bool \<Rightarrow> byte list \<Rightarrow> int list" where
  "bracket_depths opening closing depth in_string escaped [] = []"
| "bracket_depths opening closing depth in_string escaped (b # rest) =
     (if escaped then depth # bracket_depths opening closing depth in_string False rest
      else if in_string then
        (if b = 0x5C then depth # bracket_depths opening closing depth True True rest
         else if b = 0x22 then depth # bracket_depths opening closing depth False False rest
         else depth # bracket_depths opening closing depth True False rest)
      else if b = 0x22 then depth # bracket_depths opening closing depth True False rest
      else if b = opening then
        (depth + 1) # bracket_depths opening closing (depth + 1) False False rest
      else if b = closing then
        (depth - 1) # bracket_depths opening closing (depth - 1) False False rest
      else depth # bracket_depths opening closing depth False False rest)"

definition looks_like_json :: "byte list \<Rightarrow> bool" where
  "looks_like_json data =
     (case dropWhile json_whitespace data of
        [] \<Rightarrow> False
      | b # rest \<Rightarrow>
          (b = 0x7B \<or> b = 0x5B)
          \<and> (let depths = bracket_depths b (if b = 0x7B then 0x7D else 0x5D) 1 False False rest;
                  still_open = takeWhile (\<lambda>d. d \<noteq> 0) depths
              in if length still_open < length depths
                 then list_all json_whitespace (drop (length still_open + 1) rest)
                 else 0 < last (1 # depths) \<and> last (1 # depths) < 100))"

definition heuristic_rules :: "rat \<Rightarrow> byte list \<Rightarrow> bool \<times> rat" where
  "heuristic_rules threshold sample =
     (if sample = [] then (False, 50 / 100)
      else if byte_ratio is_null_byte sample > 1 / 100 then (True, 85 / 100)
      else if byte_ratio is_control_byte sample > 5 / 100 then (True, 80 / 100)
      else if byte_ratio is_highbit_byte sample > threshold then
        (if utf8_wellformed sample then (False, 70 / 100) else (True, 75 / 100))
      else if looks_like_json sample then (False, 75 / 100)
      else if byte_ratio is_printable_byte sample > 85 / 100 then (False, 70 / 100)
      else (True, 50 / 100))"

section \<open>Package contentdetect: content type and magic bytes\<close>

text \<open>String helpers of the Go library. \<open>strings.ToLower\<close>, \<open>strings.ToUpper\<close> and
  \<open>strings.TrimSpace\<close> are Unicode-aware in Go; they are modelled here on ASCII
  text, where they change the letters \<open>A..Z\<close> (\<open>a..z\<close>) and strip the six ASCII
  white-space characters. Content types and HTTP methods are ASCII tokens.\<close>

definition lower_byte :: "char \<Rightarrow> char" where
  "lower_byte c =
     (if (65::nat) \<le> of_char c \<and> of_char c \<le> (90::nat) then char_of (of_char c + (32::nat))
      else c)"

definition upper_byte :: "char \<Rightarrow> char" where
  "upper_byte c =
     (if (97::nat) \<le> of_char c \<and> of_char c \<le> (122::nat) then char_of (of_char c - (32::nat))
      else c)"

definition strings_ToLower :: "string \<Rightarrow> string" where
  "strings_ToLower s = map lower_byte s"

definition strings_ToUpper :: "string \<Rightarrow> string" where
  "strings_ToUpper s = map upper_byte s"

definition is_space :: "char \<Rightarrow> bool" where
  "is_space c = (of_char c \<in> {9, 10, 11, 12, 13, 32 :: nat})"

definition strings_TrimSpace :: "string \<Rightarrow> string" where
  "strings_TrimSpace s = rev (dropWhile is_space (rev (dropWhile is_space s)))"

definition strings_HasPrefix :: "string \<Rightarrow> string \<Rightarrow> bool" where
  "strings_HasPrefix s prefix = (length s \<ge> length prefix \<and> take (length prefix) s = prefix)"

definition strings_HasSuffix :: "string \<Rightarrow> string \<Rightarrow> bool" where
  "strings_HasSuffix s suffix =
     (length s \<ge> length suffix \<and> drop (length s - length suffix) s = suffix)"

definition bytes_of :: "string \<Rightarrow> byte list" where
  "bytes_of s = map of_char s"

definition string_of :: "byte list \<Rightarrow> string" where
  "string_of bs = map (\<lambda>b. char_of (unat b)) bs"

text \<open>\<open>normalizeContentType\<close>: the part before the first \<open>;\<close> (all of it when there
  is none), lower-cased and trimmed.\<close>

definition normalizeContentType :: "string \<Rightarrow> string" where
  "normalizeContentType ct =
     strings_TrimSpace (strings_ToLower (takeWhile (\<lambda>c. c \<noteq> CHR '';'') ct))"

definition binaryTypes :: "(string \<times> string) list" where
  "binaryTypes =
     [(''image/png'', ''png''),
      (''image/jpeg'', ''jpg''),
      (''image/gif'', ''gif''),
      (''image/webp'', ''webp''),
      (''image/bmp'', ''bmp''),
      (''image/tiff'', ''tiff''),
      (''image/x-icon'', ''ico''),
      (''image/avif'', ''avif''),
      (''image/heic'', ''heic''),
      (''image/heif'', ''heif''),
      (''audio/mpeg'', ''mp3''),
      (''audio/wav'', ''wav''),
      (''audio/ogg'', ''ogg''),
      (''audio/webm'', ''webm''),
      (''audio/flac'', ''flac''),
      (''audio/aac'', ''aac''),
      (''audio/mp4'', ''m4a''),
      (''video/mp4'', ''mp4''),
      (''video/webm'', ''webm''),
      (''video/ogg'', ''ogv''),
      (''video/quicktime'', ''mov''),
      (''video/x-msvideo'', ''avi''),
      (''video/x-matroska'', ''mkv''),
      (''application/zip'', ''zip''),
      (''application/gzip'', ''gz''),
      (''application/x-tar'', ''tar''),
      (''application/x-rar-compressed'', ''rar''),
      (''application/x-7z-compressed'', ''7z''),
      (''application/x-bzip2'', ''bz2''),
      (''application/x-xz'', ''xz''),
      (''application/pdf'', ''pdf''),
      (''application/msword'', ''doc''),
      (''application/vnd.openxmlformats-officedocument.wordprocessingml.document'', ''docx''),
      (''application/vnd.ms-excel'', ''xls''),
      (''application/vnd.openxmlformats-officedocument.spreadsheetml.sheet'', ''xlsx''),
      (''application/vnd.ms-powerpoint'', ''ppt''),
      (''application/vnd.openxmlformats-officedocument.presentationml.presentation'', ''pptx''),
      (''application/octet-stream'', ''''),
      (''application/x-executable'', ''exe''),
      (''application/x-mach-binary'', ''''),
      (''application/x-elf'', ''''),
      (''application/x-dosexec'', ''exe''),
      (''font/woff'', ''woff''),
      (''font/woff2'', ''woff2''),
      (''font/ttf'', ''ttf''),
      (''font/otf'', ''otf''),
      (''application/font-woff'', ''woff''),
      (''application/font-woff2'', ''woff2''),
      (''application/x-shockwave-flash'', ''swf''),
      (''application/wasm'', ''wasm'')]"

definition textTypes :: "(string \<times> string) list" where
  "textTypes =
     [(''text/plain'', ''txt''),
      (''text/html'', ''html''),
      (''text/css'', ''css''),
      (''text/javascript'', ''js''),
      (''text/xml'', ''xml''),
      (''text/csv'', ''csv''),
      (''text/markdown'', ''md''),
      (''text/calendar'', ''ics''),
      (''application/json'', ''json''),
      (''application/xml'', ''xml''),
      (''application/javascript'', ''js''),
      (''application/x-javascript'', ''js''),
      (''application/ecmascript'', ''js''),
      (''application/ld+json'', ''jsonld''),
      (''application/x-yaml'', ''yaml''),
      (''application/yaml'', ''yaml''),
      (''application/x-www-form-urlencoded'', ''''),
      (''application/graphql'', ''graphql''),
      (''image/svg+xml'', ''svg'')]"

definition content_type_info :: "bool \<Rightarrow> string \<Rightarrow> string \<Rightarrow> rat \<Rightarrow> ContentInfo" where
  "content_type_info binary ct ext conf =
     \<lparr>ci_IsBinary = binary, ci_IsText = \<not> binary, ci_MIMEType = ct, ci_Extension = ext,
      ci_Method = ''content-type'', ci_Confidence = conf\<rparr>"

text \<open>\<open>detectByContentType\<close>; \<open>None\<close> is the result \<open>(ContentInfo{}, false)\<close>.\<close>

definition detectByContentType :: "string \<Rightarrow> ContentInfo option" where
  "detectByContentType ct =
     (case map_of binaryTypes ct of
        Some ext \<Rightarrow> Some (content_type_info True ct ext (9 / 10))
      | None \<Rightarrow>
     (case map_of textTypes ct of
        Some ext \<Rightarrow> Some (content_type_info False ct ext (9 / 10))
      | None \<Rightarrow>
        if strings_HasPrefix ct ''text/'' then Some (content_type_info False ct [] (8 / 10))
        else if strings_HasPrefix ct ''audio/'' \<or> strings_HasPrefix ct ''video/''
          then Some (content_type_info True ct [] (8 / 10))
        else if strings_HasPrefix ct ''image/'' \<and> ct \<noteq> ''image/svg+xml''
          then Some (content_type_info True ct [] (8 / 10))
        else if strings_HasSuffix ct ''+json'' \<or> strings_HasSuffix ct ''+xml''
          then Some (content_type_info False ct [] (85 / 100))
        else None))"

text \<open>File signatures. No signature of the two tables sets a mask.\<close>

record magicSignature =
  sig_bytes :: "byte list"
  sig_mask :: "byte list"
  sig_offset :: nat
  sig_mimeType :: string
  sig_extension :: string
  sig_isBinary :: bool

definition sig :: "byte list \<Rightarrow> nat \<Rightarrow> string \<Rightarrow> string \<Rightarrow> bool \<Rightarrow> magicSignature" where
  "sig bs off mime ext binary =
     \<lparr>sig_bytes = bs, sig_mask = [], sig_offset = off, sig_mimeType = mime,
      sig_extension = ext, sig_isBinary = binary\<rparr>"

definition magicSignatures :: "magicSignature list" where
  "magicSignatures =
     [sig ([0x89, 0x50, 0x4E, 0x47, 0x0D, 0x0A, 0x1A, 0x0A]) 0 ''image/png'' ''png'' True,
      sig ([0xFF, 0xD8, 0xFF]) 0 ''image/jpeg'' ''jpg'' True,
      sig ([0x47, 0x49, 0x46, 0x38, 0x37, 0x61]) 0 ''image/gif'' ''gif'' True,
      sig ([0x47, 0x49, 0x46, 0x38, 0x39, 0x61]) 0 ''image/gif'' ''gif'' True,
      sig ([0x52, 0x49, 0x46, 0x46]) 0 ''image/webp'' ''webp'' True,
      sig ([0x42, 0x4D]) 0 ''image/bmp'' ''bmp'' True,
      sig ([0x49, 0x49, 0x2A, 0x00]) 0 ''image/tiff'' ''tiff'' True,
      sig ([0x4D, 0x4D, 0x00, 0x2A]) 0 ''image/tiff'' ''tiff'' True,
      sig ([0x00, 0x00, 0x01, 0x00]) 0 ''image/x-icon'' ''ico'' True,
      sig ([0x00, 0x00, 0x02, 0x00]) 0 ''image/x-icon'' ''cur'' True,
      sig ([0x49, 0x44, 0x33]) 0 ''audio/mpeg'' ''mp3'' True,
      sig ([0xFF, 0xFB]) 0 ''audio/mpeg'' ''mp3'' True,
      sig ([0xFF, 0xFA]) 0 ''audio/mpeg'' ''mp3'' True,
      sig ([0xFF, 0xF3]) 0 ''audio/mpeg'' ''mp3'' True,
      sig ([0xFF, 0xF2]) 0 ''audio/mpeg'' ''mp3'' True,
      sig ([0x4F, 0x67, 0x67, 0x53]) 0 ''audio/ogg'' ''ogg'' True,
      sig ([0x66, 0x4C, 0x61, 0x43]) 0 ''audio/flac'' ''flac'' True,
      sig ([0x52, 0x49, 0x46, 0x46]) 0 ''audio/wav'' ''wav'' True,
      sig ([0x00, 0x00, 0x00, 0x20, 0x66, 0x74, 0x79, 0x70]) 0 ''audio/mp4'' ''m4a'' True,
      sig ([0x00, 0x00, 0x00, 0x1C, 0x66, 0x74, 0x79, 0x70]) 0 ''video/mp4'' ''mp4'' True,
      sig ([0x00, 0x00, 0x00, 0x18, 0x66, 0x74, 0x79, 0x70]) 0 ''video/mp4'' ''mp4'' True,
      sig ([0x00, 0x00, 0x00, 0x14, 0x66, 0x74, 0x79, 0x70]) 0 ''video/mp4'' ''mp4'' True,
      sig ([0x1A, 0x45, 0xDF, 0xA3]) 0 ''video/webm'' ''webm'' True,
      sig ([0x00, 0x00, 0x00, 0x14, 0x66, 0x74, 0x79, 0x70, 0x71, 0x74]) 0 ''video/quicktime'' ''mov'' True,
      sig ([0x52, 0x49, 0x46, 0x46]) 0 ''video/x-msvideo'' ''avi'' True,
      sig ([0x46, 0x4C, 0x56, 0x01]) 0 ''video/x-flv'' ''flv'' True,
      sig ([0x50, 0x4B, 0x03, 0x04]) 0 ''application/zip'' ''zip'' True,
      sig ([0x50, 0x4B, 0x05, 0x06]) 0 ''application/zip'' ''zip'' True,
      sig ([0x50, 0x4B, 0x07, 0x08]) 0 ''application/zip'' ''zip'' True,
      sig ([0x1F, 0x8B, 0x08]) 0 ''application/gzip'' ''gz'' True,
      sig ([0x42, 0x5A, 0x68]) 0 ''application/x-bzip2'' ''bz2'' True,
      sig ([0xFD, 0x37, 0x7A, 0x58, 0x5A, 0x00]) 0 ''application/x-xz'' ''xz'' True,
      sig ([0x37, 0x7A, 0xBC, 0xAF, 0x27, 0x1C]) 0 ''application/x-7z-compressed'' ''7z'' True,
      sig ([0x52, 0x61, 0x72, 0x21, 0x1A, 0x07, 0x00]) 0 ''application/x-rar-compressed'' ''rar'' True,
      sig ([0x52, 0x61, 0x72, 0x21, 0x1A, 0x07, 0x01, 0x00]) 0 ''application/x-rar-compressed'' ''rar'' True,
      sig ([0x75, 0x73, 0x74, 0x61, 0x72]) 257 ''application/x-tar'' ''tar'' True,
      sig ([0x25, 0x50, 0x44, 0x46, 0x2D]) 0 ''application/pdf'' ''pdf'' True,
      sig ([0xD0, 0xCF, 0x11, 0xE0, 0xA1, 0xB1, 0x1A, 0xE1]) 0 ''application/msword'' ''doc'' True,
      sig ([0x4D, 0x5A]) 0 ''application/x-dosexec'' ''exe'' True,
      sig ([0x7F, 0x45, 0x4C, 0x46]) 0 ''application/x-elf'' '''' True,
      sig ([0xCF, 0xFA, 0xED, 0xFE]) 0 ''application/x-mach-binary'' '''' True,
      sig ([0xCE, 0xFA, 0xED, 0xFE]) 0 ''application/x-mach-binary'' '''' True,
      sig ([0xCA, 0xFE, 0xBA, 0xBE]) 0 ''application/x-mach-binary'' '''' True,
      sig ([0xFE, 0xED, 0xFA, 0xCF]) 0 ''application/x-mach-binary'' '''' True,
      sig ([0xFE, 0xED, 0xFA, 0xCE]) 0 ''application/x-mach-binary'' '''' True,
      sig ([0x77, 0x4F, 0x46, 0x46]) 0 ''font/woff'' ''woff'' True,
      sig ([0x77, 0x4F, 0x46, 0x32]) 0 ''font/woff2'' ''woff2'' True,
      sig ([0x00, 0x01, 0x00, 0x00]) 0 ''font/ttf'' ''ttf'' True,
      sig ([0x4F, 0x54, 0x54, 0x4F]) 0 ''font/otf'' ''otf'' True,
      sig ([0x00, 0x61, 0x73, 0x6D]) 0 ''application/wasm'' ''wasm'' True,
      sig ([0x46, 0x57, 0x53]) 0 ''application/x-shockwave-flash'' ''swf'' True,
      sig ([0x43, 0x57, 0x53]) 0 ''application/x-shockwave-flash'' ''swf'' True,
      sig ([0x53, 0x51, 0x4C, 0x69, 0x74, 0x65, 0x20, 0x66, 0x6F, 0x72, 0x6D, 0x61, 0x74, 0x20, 0x33, 0x00]) 0 ''application/x-sqlite3'' ''sqlite'' True]"

definition textSignatures :: "magicSignature list" where
  "textSignatures =
     [sig (bytes_of ''<?xml'') 0 ''application/xml'' ''xml'' False,
      sig (bytes_of ''<svg'') 0 ''image/svg+xml'' ''svg'' False,
      sig (bytes_of ''<!DOCTYPE svg'') 0 ''image/svg+xml'' ''svg'' False,
      sig (bytes_of ''<!DOCTYPE html'') 0 ''text/html'' ''html'' False,
      sig (bytes_of ''<!doctype html'') 0 ''text/html'' ''html'' False,
      sig (bytes_of ''<html'') 0 ''text/html'' ''html'' False,
      sig (bytes_of ''<HTML'') 0 ''text/html'' ''html'' False,
      sig (bytes_of ''<!DOCTYPE HTML'') 0 ''text/html'' ''html'' False,
      sig (bytes_of ''#!/bin/bash'') 0 ''application/x-sh'' ''sh'' False,
      sig (bytes_of ''#!/bin/sh'') 0 ''application/x-sh'' ''sh'' False,
      sig (bytes_of ''#!/usr/bin/env'') 0 ''application/x-sh'' ''sh'' False,
      sig (bytes_of ''%!PS'') 0 ''application/postscript'' ''ps'' False,
      sig [0x7B, 0x5C, 0x72, 0x74, 0x66] 0 ''application/rtf'' ''rtf'' False]"

text \<open>\<open>matchSignature\<close>. In the masked comparison \<open>sig.mask[i]\<close> is read for every
  index of \<open>sig.bytes\<close>; a shorter non-empty mask would be an index panic in Go, which
  no signature of the tables can reach since none has a mask.\<close>

definition matchSignature :: "byte list \<Rightarrow> magicSignature \<Rightarrow> bool" where
  "matchSignature data sg =
     (if sig_offset sg + length (sig_bytes sg) > length data then False
      else
        let chunk = take (length (sig_bytes sg)) (drop (sig_offset sg) data)
        in if length (sig_mask sg) > 0 then
             list_all (\<lambda>i. (chunk ! i) AND (sig_mask sg ! i) = (sig_bytes sg ! i) AND (sig_mask sg ! i))
               [0..<length (sig_bytes sg)]
           else list_all (\<lambda>i. chunk ! i = sig_bytes sg ! i) [0..<length (sig_bytes sg)])"

definition magic_info :: "magicSignature \<Rightarrow> rat \<Rightarrow> ContentInfo" where
  "magic_info sg conf =
     \<lparr>ci_IsBinary = sig_isBinary sg, ci_IsText = \<not> sig_isBinary sg,
      ci_MIMEType = sig_mimeType sg, ci_Extension = sig_extension sg,
      ci_Method = ''magic'', ci_Confidence = conf\<rparr>"

definition detectByMagicBytes :: "byte list \<Rightarrow> ContentInfo option" where
  "detectByMagicBytes data =
     (if length data = 0 then None
      else
        (case find (matchSignature data) magicSignatures of
           Some sg \<Rightarrow> Some (magic_info sg (95 / 100))
         | None \<Rightarrow>
        (case find (matchSignature data) textSignatures of
           Some sg \<Rightarrow> Some (magic_info sg (90 / 100))
         | None \<Rightarrow> None)))"

text \<open>\<open>DetectWithOptions\<close>; \<open>None\<close> for the options is Go's \<open>nil\<close>.\<close>

definition DetectWithOptions :: "string \<Rightarrow> byte list \<Rightarrow> Options option \<Rightarrow> panic + ContentInfo" where
  "DetectWithOptions contentType data opts0 =
     (let opts = (case opts0 of None \<Rightarrow> DefaultOptions | Some v \<Rightarrow> v);
          ct = normalizeContentType contentType;
          by_type = (if TrustContentType opts \<and> ct \<noteq> [] then detectByContentType ct else None)
      in case by_type of
           Some info \<Rightarrow> Inr info
         | None \<Rightarrow>
             (case (if length data > 0 then detectByMagicBytes data else None) of
                Some info \<Rightarrow> Inr info
              | None \<Rightarrow> detectByHeuristic data opts))"

definition Detect :: "string \<Rightarrow> byte list \<Rightarrow> panic + ContentInfo" where
  "Detect contentType data = DetectWithOptions contentType data None"

text \<open>\<open>IsBinary(contentType, data)\<close> runs the detection with the default options, under
  which \<open>detectByHeuristic\<close> cannot panic (lemma \<open>Detect_returns\<close> below); the
  \<open>Inl\<close> branch is not reached.\<close>

definition contentdetect_IsBinary :: "string \<Rightarrow> byte list \<Rightarrow> bool" where
  "contentdetect_IsBinary contentType data =
     (case DetectWithOptions contentType data None of
        Inr info \<Rightarrow> ci_IsBinary info
      | Inl p \<Rightarrow> False)"

section \<open>Package capture: the filter\<close>

text \<open>The regular-expression engine is Go's library, not code of this repository. A
  compiled \<open>*regexp.Regexp\<close> is represented by the expression it was compiled from;
  what the library decides is a parameter: whether \<open>regexp.Compile\<close> accepts an
  expression, and whether a compiled expression matches an input
  (\<open>MatchString\<close>).\<close>

record regexp_lib =
  Compile_ok :: "string \<Rightarrow> bool"
  MatchString :: "string \<Rightarrow> string \<Rightarrow> bool"

record Filter =
  IncludeHosts :: "string list"
  ExcludeHosts :: "string list"
  IncludePaths :: "string list"
  ExcludePaths :: "string list"
  IncludeMethods :: "string list"
  ExcludeMethods :: "string list"
  IncludeStatusCodes :: "int list"
  ExcludeStatusCodes :: "int list"
  MinStatusCode :: int
  MaxStatusCode :: int
  includeHostPatterns :: "string list"
  excludeHostPatterns :: "string list"
  includePathPatterns :: "string list"
  excludePathPatterns :: "string list"

definition NewFilter :: Filter where
  "NewFilter =
     \<lparr>IncludeHosts = [], ExcludeHosts = [], IncludePaths = [], ExcludePaths = [],
      IncludeMethods = [], ExcludeMethods = [], IncludeStatusCodes = [],
      ExcludeStatusCodes = [], MinStatusCode = 0, MaxStatusCode = 999,
      includeHostPatterns = [], excludeHostPatterns = [], includePathPatterns = [],
      excludePathPatterns = []\<rparr>"

text \<open>The loop of \<open>wildcardToRegexp\<close> over the pattern, appending to the string
  builder \<open>result\<close>.\<close>

fun wildcard_loop :: "string \<Rightarrow> string \<Rightarrow> string" where
  "wildcard_loop result [] = result"
| "wildcard_loop result (c # pattern) =
     (if c = CHR ''*'' then wildcard_loop (result @ ''.*'') pattern
      else if c = CHR ''?'' then wildcard_loop (result @ ''.'') pattern
      else if c \<in> set [CHR ''.'', CHR ''+'', CHR ''^'', CHR ''$'', CHR ''['', CHR '']'',
                        CHR ''('', CHR '')'', CHR ''{'', CHR ''}'', CHR ''|'', CHR 0x5C]
        then wildcard_loop (result @ [CHR 0x5C] @ [c]) pattern
      else wildcard_loop (result @ [c]) pattern)"

text \<open>The expression handed to \<open>regexp.Compile\<close>.\<close>

definition wildcard_expr :: "string \<Rightarrow> string" where
  "wildcard_expr pattern = wildcard_loop ''^'' pattern @ ''$''"

definition wildcardToRegexp :: "regexp_lib \<Rightarrow> string \<Rightarrow> string option" where
  "wildcardToRegexp lib pattern =
     (if Compile_ok lib (wildcard_expr pattern) then Some (wildcard_expr pattern) else None)"

text \<open>\<open>compilePatterns\<close>: \<open>None\<close> is the result \<open>(nil, err)\<close>.\<close>

fun compile_loop :: "regexp_lib \<Rightarrow> string list \<Rightarrow> string list \<Rightarrow> string list option" where
  "compile_loop lib result [] = Some result"
| "compile_loop lib result (pattern # patterns) =
     (case wildcardToRegexp lib pattern of
        None \<Rightarrow> None
      | Some re \<Rightarrow> compile_loop lib (result @ [re]) patterns)"

definition compilePatterns :: "regexp_lib \<Rightarrow> string list \<Rightarrow> string list option" where
  "compilePatterns lib patterns = compile_loop lib [] patterns"

text \<open>\<open>Filter.Compile\<close> assigns each compiled list to the filter in place and returns
  at the first error; an assignment from a failed \<open>compilePatterns\<close> stores \<open>nil\<close>.
  The result is the error flag and the filter as the call leaves it.\<close>

definition patterns_or_nil :: "string list option \<Rightarrow> string list" where
  "patterns_or_nil r = (case r of None \<Rightarrow> [] | Some ps \<Rightarrow> ps)"

definition Compile :: "regexp_lib \<Rightarrow> Filter \<Rightarrow> bool \<times> Filter" where
  "Compile lib f =
     (let r1 = compilePatterns lib (IncludeHosts f);
          f1 = f\<lparr>includeHostPatterns := patterns_or_nil r1\<rparr>
      in if r1 = None then (False, f1)
      else
        let r2 = compilePatterns lib (ExcludeHosts f1);
            f2 = f1\<lparr>excludeHostPatterns := patterns_or_nil r2\<rparr>
        in if r2 = None then (False, f2)
        else
          let r3 = compilePatterns lib (IncludePaths f2);
              f3 = f2\<lparr>includePathPatterns := patterns_or_nil r3\<rparr>
          in if r3 = None then (False, f3)
          else
            let r4 = compilePatterns lib (ExcludePaths f3);
                f4 = f3\<lparr>excludePathPatterns := patterns_or_nil r4\<rparr>
            in if r4 = None then (False, f4) else (True, f4))"

text \<open>The two loops shared by \<open>matchHost\<close> and \<open>matchPath\<close>: the include patterns
  are consulted only when there are any, the exclude patterns always, afterwards.\<close>

definition match_patterns :: "regexp_lib \<Rightarrow> string list \<Rightarrow> string list \<Rightarrow> string \<Rightarrow> bool" where
  "match_patterns lib includes excludes input =
     (if length includes > 0 \<and> \<not> list_ex (\<lambda>pattern. MatchString lib pattern input) includes
        then False
      else if list_ex (\<lambda>pattern. MatchString lib pattern input) excludes then False
      else True)"

definition Filter_matchHost :: "regexp_lib \<Rightarrow> Filter \<Rightarrow> string \<Rightarrow> bool" where
  "Filter_matchHost lib f host =
     match_patterns lib (includeHostPatterns f) (excludeHostPatterns f) host"

definition matchPath :: "regexp_lib \<Rightarrow> Filter \<Rightarrow> string \<Rightarrow> bool" where
  "matchPath lib f path =
     match_patterns lib (includePathPatterns f) (excludePathPatterns f) path"

definition matchMethod :: "Filter \<Rightarrow> string \<Rightarrow> bool" where
  "matchMethod f method0 =
     (let method = strings_ToUpper method0
      in if length (IncludeMethods f) > 0
            \<and> \<not> list_ex (\<lambda>m. strings_ToUpper m = method) (IncludeMethods f) then False
         else if list_ex (\<lambda>m. strings_ToUpper m = method) (ExcludeMethods f) then False
         else True)"

definition MatchRequest :: "regexp_lib \<Rightarrow> Filter \<Rightarrow> string \<Rightarrow> string \<Rightarrow> string \<Rightarrow> bool" where
  "MatchRequest lib f host path method =
     (if \<not> Filter_matchHost lib f host then False
      else if \<not> matchPath lib f path then False
      else if \<not> matchMethod f method then False
      else True)"

definition MatchResponse :: "Filter \<Rightarrow> int \<Rightarrow> bool" where
  "MatchResponse f statusCode =
     (if statusCode < MinStatusCode f \<or> statusCode > MaxStatusCode f then False
      else if length (IncludeStatusCodes f) > 0
              \<and> \<not> list_ex (\<lambda>code. code = statusCode) (IncludeStatusCodes f) then False
      else if list_ex (\<lambda>code. code = statusCode) (ExcludeStatusCodes f) then False
      else True)"

text \<open>The characters with a special meaning in Go's regular-expression syntax (the
  ones \<open>regexp.QuoteMeta\<close> escapes).\<close>

definition regexp_metachars :: "char set" where
  "regexp_metachars =
     set [CHR 0x5C, CHR ''.'', CHR ''+'', CHR ''*'', CHR ''?'', CHR ''('', CHR '')'', CHR ''|'',
          CHR ''['', CHR '']'', CHR ''{'', CHR ''}'', CHR ''^'', CHR ''$'']"

text \<open>The translation of one pattern character as the specification states it: \<open>*\<close>
  becomes \<open>.*\<close>, \<open>?\<close> becomes \<open>.\<close>, every other metacharacter is escaped
  with a backslash, and any other character stands for itself.\<close>

definition wildcard_char :: "char \<Rightarrow> string" where
  "wildcard_char c =
     (if c = CHR ''*'' then ''.*''
      else if c = CHR ''?'' then ''.''
      else if c \<in> regexp_metachars then [CHR 0x5C, c]
      else [c])"

text \<open>A reference instance of the library for the expressions \<open>wildcard_expr\<close>
  produces, on ASCII inputs without line breaks: after \<open>^\<close>, \<open>.*\<close> is any run,
  \<open>.\<close> one character, an escaped or plain character itself, and \<open>$\<close> the end
  of the input.\<close>

fun expr_match :: "string \<Rightarrow> string \<Rightarrow> bool" where
  "expr_match [] input = True"
| "expr_match (c # expr) input =
     (if c = CHR ''$'' \<and> expr = [] then input = []
      else if c = CHR ''.'' \<and> expr \<noteq> [] \<and> hd expr = CHR ''*'' then
        (expr_match (tl expr) input
         \<or> (case input of [] \<Rightarrow> False | x # xs \<Rightarrow> expr_match (c # expr) xs))
      else if c = CHR ''.'' then (case input of [] \<Rightarrow> False | x # xs \<Rightarrow> expr_match expr xs)
      else if c = CHR 0x5C \<and> expr \<noteq> [] then
        (case input of [] \<Rightarrow> False | x # xs \<Rightarrow> x = hd expr \<and> expr_match (tl expr) xs)
      else (case input of [] \<Rightarrow> False | x # xs \<Rightarrow> x = c \<and> expr_match expr xs))"

definition reference_regexp :: regexp_lib where
  "reference_regexp =
     \<lparr>Compile_ok = (\<lambda>expr. True),
      MatchString = (\<lambda>expr input. expr \<noteq> [] \<and> hd expr = CHR ''^'' \<and> expr_match (tl expr) input)\<rparr>"

text \<open>A sample filter: paths under \<open>/api/\<close> except scripts.\<close>

definition api_filter :: Filter where
  "api_filter = NewFilter\<lparr>IncludePaths := [''/api/*''], ExcludePaths := [''*.js'']\<rparr>"

section \<open>Package capture: the capturer\<close>

text \<open>\<open>http.Header\<close> is a Go map from header name to a list of values. It is modelled
  as an association list: \<open>range\<close> visits the entries in some order, which is the
  order of the list, and every theorem below holds for every order. \<open>Get\<close> looks the
  canonical form of its argument up and returns the first value or the empty string;
  its argument in the capturer, \<open>Content-Type\<close>, is canonical already.\<close>

type_synonym http_Header = "(string \<times> string list) list"

definition Header_Get :: "http_Header \<Rightarrow> string \<Rightarrow> string" where
  "Header_Get h key =
     (case map_of h key of None \<Rightarrow> [] | Some v \<Rightarrow> (if length v = 0 then [] else hd v))"

text \<open>A request or response body is an \<open>io.ReadCloser\<close>: either it delivers its bytes
  or reading fails. \<open>io.ReadAll(io.LimitReader(r, n))\<close> returns at most \<open>n\<close> bytes
  (none for \<open>n \<le> 0\<close>), or the error.\<close>

datatype reader = Reader "byte list" | FailingReader

definition ReadAll_Limit :: "reader \<Rightarrow> int \<Rightarrow> byte list option" where
  "ReadAll_Limit r n = (case r of Reader bs \<Rightarrow> Some (take (nat n) bs) | FailingReader \<Rightarrow> None)"

text \<open>The fields of \<open>url.URL\<close>, \<open>http.Request\<close> and \<open>http.Response\<close> the capturer
  reads. \<open>url_String\<close> and \<open>url_Query\<close> are the results of the library's
  \<open>String()\<close> and \<open>Query()\<close>; \<open>req_TLS\<close> says whether \<open>req.TLS\<close> is
  non-nil.\<close>

record URL =
  url_Scheme :: string
  url_Path :: string
  url_String :: string
  url_Query :: "(string \<times> string list) list"

record Request =
  req_Method :: string
  req_URL :: URL
  req_Host :: string
  req_TLS :: bool
  req_Header :: http_Header
  req_Body :: "reader option"
  req_ContentLength :: int

record Response =
  resp_StatusCode :: int
  resp_Status :: string
  resp_Header :: http_Header
  resp_Body :: "reader option"
  resp_ContentLength :: int

text \<open>The \<open>interface{}\<close> body of a record: absent, a decoded JSON value (of the JSON
  library's type \<open>'j\<close>) or a string.\<close>

datatype 'j body = NoBody | Parsed 'j | Text string

record 'j RequestRecord =
  rr_Method :: string
  rr_URL :: string
  rr_Host :: string
  rr_Path :: string
  rr_Scheme :: string
  rr_Headers :: "string \<rightharpoonup> string"
  rr_Query :: "string \<rightharpoonup> string"
  rr_Body :: "'j body"
  rr_BodySize :: int
  rr_IsBinary :: bool
  rr_ContentType :: string

record 'j ResponseRecord =
  rs_Status :: int
  rs_StatusText :: string
  rs_Headers :: "string \<rightharpoonup> string"
  rs_Body :: "'j body"
  rs_IsBinary :: bool
  rs_ContentType :: string
  rs_Size :: int

text \<open>Times are nanoseconds; \<open>DurationMs\<close> is a rational (see the remark on
  \<open>float64\<close> above).\<close>

record 'j Record =
  Request :: "'j RequestRecord"
  Response :: "'j ResponseRecord"
  StartTime :: int
  EndTime :: int
  DurationMs :: rat

datatype Format = FormatJSON | FormatNDJSON | FormatHAR | FormatIR

record Config =
  cfg_Format :: Format
  IncludeHeaders :: bool
  FilterHeaders :: "string list"
  IncludeBody :: bool
  MaxBodySize :: int
  SkipBinary :: bool
  cfg_Filter :: "Filter option"

definition DefaultConfig :: Config where
  "DefaultConfig =
     \<lparr>cfg_Format = FormatNDJSON,
      IncludeHeaders = True,
      FilterHeaders = [''authorization'', ''cookie'', ''set-cookie'', ''x-api-key'',
                       ''x-auth-token'', ''proxy-authorization''],
      IncludeBody = True,
      MaxBodySize = 1024 * 1024,
      SkipBinary = True,
      cfg_Filter = None\<rparr>"

record 'j Capturer =
  config :: Config
  records :: "'j Record list"

definition NewCapturer :: "Config option \<Rightarrow> 'j Capturer" where
  "NewCapturer cfg =
     \<lparr>config = (case cfg of None \<Rightarrow> DefaultConfig | Some c \<Rightarrow> c), records = []\<rparr>"

definition normalizeHeader :: "string \<Rightarrow> string" where
  "normalizeHeader s = map lower_byte s"

text \<open>One iteration of the \<open>range\<close> loop of \<open>filterHeaders\<close>, and the loop.\<close>

definition filterHeaders_step ::
  "Config \<Rightarrow> (string \<rightharpoonup> string) \<Rightarrow> string \<times> string list \<Rightarrow> (string \<rightharpoonup> string)" where
  "filterHeaders_step cfg result kv =
     (let kLower = normalizeHeader (fst kv);
          skip = list_ex (\<lambda>filter. normalizeHeader filter = kLower) (FilterHeaders cfg)
      in if \<not> skip \<and> length (snd kv) > 0 then result(kLower \<mapsto> hd (snd kv)) else result)"

definition filterHeaders :: "Config \<Rightarrow> http_Header \<Rightarrow> (string \<rightharpoonup> string)" where
  "filterHeaders cfg headers = foldl (filterHeaders_step cfg) Map.empty headers"

text \<open>\<open>contains(s, substr)\<close>: the loop runs for \<open>i = 0 .. len(s) - len(substr)\<close>, and
  not at all when \<open>substr\<close> is the longer.\<close>

definition contains :: "string \<Rightarrow> string \<Rightarrow> bool" where
  "contains s substr =
     list_ex (\<lambda>i. take (length substr) (drop i s) = substr)
       [0..<(Suc (length s) - length substr)]"

definition isJSONContentType :: "string \<Rightarrow> bool" where
  "isJSONContentType ct =
     (length ct \<ge> 16 \<and> (take 16 ct = ''application/json'' \<or> contains ct ''json''))"

text \<open>The condition under which \<open>parseBody\<close> calls \<open>json.Unmarshal\<close>, and
  \<open>parseBody\<close>. The JSON decoder is Go's library: \<open>unmarshal\<close> gives the decoded
  value, or \<open>None\<close> for its error.\<close>

definition parseBody_tries_json :: "byte list \<Rightarrow> string \<Rightarrow> bool" where
  "parseBody_tries_json body contentType =
     (isJSONContentType contentType
      \<or> length body > 0 \<and> (hd body = 0x7B \<or> hd body = 0x5B))"

definition parseBody :: "(byte list \<Rightarrow> 'j option) \<Rightarrow> byte list \<Rightarrow> string \<Rightarrow> 'j body" where
  "parseBody unmarshal body contentType =
     (if parseBody_tries_json body contentType then
        (case unmarshal body of Some v \<Rightarrow> Parsed v | None \<Rightarrow> Text (string_of body))
      else Text (string_of body))"

text \<open>\<open>StartCapture\<close>, with the clock reading \<open>now\<close>. The request is left as it was
  but for its body, which is replaced by a fresh reader over the bytes read; the
  model returns the record.\<close>

definition StartCapture ::
  "(byte list \<Rightarrow> 'j option) \<Rightarrow> 'j Capturer \<Rightarrow> int \<Rightarrow> Request \<Rightarrow> 'j Record" where
  "StartCapture unmarshal c now req =
     (let cfg = config c;
          scheme = (if url_Scheme (req_URL req) = [] then (if req_TLS req then ''https'' else ''http'')
                    else url_Scheme (req_URL req));
          with_headers = (IncludeHeaders cfg \<and> length (req_Header req) > 0);
          headers = (if with_headers then filterHeaders cfg (req_Header req) else Map.empty);
          contentType = (if with_headers then Header_Get (req_Header req) ''Content-Type'' else []);
          query = (if length (url_Query (req_URL req)) > 0
                   then foldl (\<lambda>q kv. if length (snd kv) > 0 then q(fst kv \<mapsto> hd (snd kv)) else q)
                          Map.empty (url_Query (req_URL req))
                   else Map.empty);
          rq = \<lparr>rr_Method = req_Method req, rr_URL = url_String (req_URL req),
                rr_Host = req_Host req, rr_Path = url_Path (req_URL req), rr_Scheme = scheme,
                rr_Headers = headers, rr_Query = query, rr_Body = NoBody, rr_BodySize = 0,
                rr_IsBinary = False, rr_ContentType = contentType\<rparr>;
          read = (case req_Body req of
                    None \<Rightarrow> None
                  | Some r \<Rightarrow>
                      if IncludeBody cfg \<and> req_ContentLength req > 0
                         \<and> req_ContentLength req \<le> MaxBodySize cfg
                      then ReadAll_Limit r (MaxBodySize cfg) else None);
          rq' = (case read of
                   None \<Rightarrow> rq
                 | Some body \<Rightarrow>
                     if length body > 0 then
                       (if SkipBinary cfg \<and> contentdetect_IsBinary contentType body
                        then rq\<lparr>rr_BodySize := int (length body), rr_IsBinary := True,
                                rr_Body := Text ''[binary content]''\<rparr>
                        else rq\<lparr>rr_BodySize := int (length body),
                                rr_Body := parseBody unmarshal body contentType\<rparr>)
                     else rq)
      in \<lparr>Request = rq',
          Response = \<lparr>rs_Status = 0, rs_StatusText = [], rs_Headers = Map.empty, rs_Body = NoBody,
                      rs_IsBinary = False, rs_ContentType = [], rs_Size = 0\<rparr>,
          StartTime = now, EndTime = 0, DurationMs = 0\<rparr>)"

text \<open>\<open>time.Duration.Microseconds\<close>: integer division truncating towards zero.\<close>

definition Microseconds :: "int \<Rightarrow> int" where
  "Microseconds d = sgn d * (\<bar>d\<bar> div 1000)"

text \<open>\<open>FinishCapture\<close>, with the clock reading \<open>now\<close>: the completed record, and the
  capturer with the record appended (\<open>finishRecord\<close>). The handlers' fan-out and the
  write to the output act on their own sinks and are left out; \<open>None\<close> for the
  response is Go's \<open>nil\<close>.\<close>

definition FinishCapture ::
  "(byte list \<Rightarrow> 'j option) \<Rightarrow> 'j Capturer \<Rightarrow> int \<Rightarrow> 'j Record \<Rightarrow> Response option
     \<Rightarrow> 'j Capturer \<times> 'j Record" where
  "FinishCapture unmarshal c now rec0 resp0 =
     (let cfg = config c;
          rec1 = rec0\<lparr>EndTime := now,
                      DurationMs := of_int (Microseconds (now - StartTime rec0)) / 1000\<rparr>;
          rec2 =
            (case resp0 of
               None \<Rightarrow> rec1
             | Some resp \<Rightarrow>
                 let with_headers = (IncludeHeaders cfg \<and> length (resp_Header resp) > 0);
                     headers = (if with_headers then filterHeaders cfg (resp_Header resp)
                                else Map.empty);
                     contentType = (if with_headers then Header_Get (resp_Header resp) ''Content-Type''
                                    else []);
                     rs = \<lparr>rs_Status = resp_StatusCode resp, rs_StatusText = resp_Status resp,
                           rs_Headers = headers, rs_Body = NoBody, rs_IsBinary = False,
                           rs_ContentType = contentType, rs_Size = 0\<rparr>;
                     read = (case resp_Body resp of
                               None \<Rightarrow> None
                             | Some r \<Rightarrow>
                                 if IncludeBody cfg \<and> resp_ContentLength resp \<le> MaxBodySize cfg
                                 then ReadAll_Limit r (MaxBodySize cfg) else None);
                     rs' = (case read of
                              None \<Rightarrow> rs
                            | Some body \<Rightarrow>
                                if length body > 0 then
                                  (if SkipBinary cfg \<and> contentdetect_IsBinary contentType body
                                   then rs\<lparr>rs_Size := int (length body), rs_IsBinary := True,
                                           rs_Body := Text ''[binary content]''\<rparr>
                                   else rs\<lparr>rs_Size := int (length body),
                                           rs_Body := parseBody unmarshal body contentType\<rparr>)
                                else rs)
                 in rec1\<lparr>Response := rs'\<rparr>)
      in (c\<lparr>records := records c @ [rec2]\<rparr>, rec2))"


definition no_ascii_upper :: "string \<Rightarrow> bool" where
  "no_ascii_upper k = list_all (\<lambda>ch. \<not> ((65::nat) \<le> of_char ch \<and> of_char ch \<le> (90::nat))) k"

text \<open>Sample inputs: the PNG signature; an upload of it with credentials in the
  headers; a response carrying it with a cookie; a proxy request in absolute form
  without a path, \<open>GET http://example.com\<close>, for which Go's URL parser leaves
  \<open>URL.Path\<close> empty; a request and a response whose body is the JSON text
  \<open>{}\<close>; and a JSON decoder that accepts the empty object only.\<close>

definition png_bytes :: "byte list" where
  "png_bytes = [0x89, 0x50, 0x4E, 0x47, 0x0D, 0x0A, 0x1A, 0x0A]"

definition upload_request :: Request where
  "upload_request =
     \<lparr>req_Method = ''POST'',
      req_URL = \<lparr>url_Scheme = ''https'', url_Path = ''/upload'',
                 url_String = ''https://api.example.com/upload'', url_Query = []\<rparr>,
      req_Host = ''api.example.com'',
      req_TLS = True,
      req_Header = [(''Authorization'', [''Bearer secret'']), (''Content-Type'', [''image/png'']),
                    (''X-Api-Key'', [''key123''])],
      req_Body = Some (Reader png_bytes),
      req_ContentLength = 8\<rparr>"

definition image_response :: Response where
  "image_response =
     \<lparr>resp_StatusCode = 200,
      resp_Status = ''200 OK'',
      resp_Header = [(''Set-Cookie'', [''session=abc'']), (''Content-Type'', [''image/png''])],
      resp_Body = Some (Reader png_bytes),
      resp_ContentLength = 8\<rparr>"

definition bare_request :: Request where
  "bare_request =
     \<lparr>req_Method = ''GET'',
      req_URL = \<lparr>url_Scheme = ''http'', url_Path = [], url_String = ''http://example.com'',
                 url_Query = []\<rparr>,
      req_Host = ''example.com'',
      req_TLS = False,
      req_Header = [],
      req_Body = None,
      req_ContentLength = 0\<rparr>"

definition json_request :: Request where
  "json_request =
     \<lparr>req_Method = ''POST'',
      req_URL = \<lparr>url_Scheme = ''https'', url_Path = ''/v1'',
                 url_String = ''https://api.test/v1'', url_Query = []\<rparr>,
      req_Host = ''api.test'',
      req_TLS = True,
      req_Header = [(''Content-Type'', [''application/json''])],
      req_Body = Some (Reader [0x7B, 0x7D]),
      req_ContentLength = 2\<rparr>"

definition json_response :: Response where
  "json_response =
     \<lparr>resp_StatusCode = 200,
      resp_Status = ''200 OK'',
      resp_Header = [(''Content-Type'', [''application/json''])],
      resp_Body = Some (Reader [0x7B, 0x7D]),
      resp_ContentLength = 2\<rparr>"

definition empty_object_decoder :: "byte list \<Rightarrow> unit option" where
  "empty_object_decoder body = (if body = [0x7B, 0x7D] then Some () else None)"

definition default_capturer :: "unit Capturer" where
  "default_capturer = NewCapturer None"

section \<open>Package backend: the async wrapper\<close>

text \<open>The wrapper's state as its caller and its workers see it, one operation at a
  time. \<open>queue\<close> is the content of the buffered channel, oldest record first, and
  \<open>queue_cap\<close> its capacity; \<open>stopChan_closed\<close> says whether \<open>stopChan\<close> has been
  closed; \<open>batches\<close> holds the local batch of each worker. The \<open>Metrics\<close> interface
  is kept as the number of calls of \<open>IncStoreError\<close> and \<open>IncStoreSuccess\<close> and
  the last value given to \<open>SetQueueDepth\<close>. The wrapped store is observed through
  the batches handed to its \<open>StoreBatch\<close> and the number of calls of its \<open>Close\<close>;
  whether it accepts a batch, and what its \<open>Close\<close> returns, are the fields
  \<open>inner_accepts\<close> and \<open>inner_close_error\<close>. An \<open>error\<close> is its message, \<open>None\<close>
  is \<open>nil\<close>.\<close>

record AsyncConfig =
  QueueSize :: int
  BatchSize :: int
  FlushPeriod :: int
  Workers :: int

record 'r AsyncTrafficStoreWrapper =
  queue :: "'r list"
  queue_cap :: nat
  batchSize :: nat
  flushPeriod :: int
  workers :: nat
  stopped :: bool
  stopChan_closed :: bool
  batches :: "'r list list"
  store_errors :: nat
  store_successes :: nat
  queue_depth_gauge :: nat
  inner_batches :: "'r list list"
  inner_closes :: nat
  inner_accepts :: "'r list \<Rightarrow> bool"
  inner_close_error :: "string option"

definition DefaultAsyncConfig :: AsyncConfig where
  "DefaultAsyncConfig =
     \<lparr>QueueSize = 10000, BatchSize = 100, FlushPeriod = 100 * 1000000, Workers = 2\<rparr>"

text \<open>\<open>NewAsyncTrafficStore\<close> over a wrapped store described by \<open>accepts\<close> and
  \<open>close_error\<close>; \<open>None\<close> for the configuration is \<open>nil\<close>.\<close>

definition NewAsyncTrafficStore ::
  "('r list \<Rightarrow> bool) \<Rightarrow> string option \<Rightarrow> AsyncConfig option \<Rightarrow> 'r AsyncTrafficStoreWrapper" where
  "NewAsyncTrafficStore accepts close_error cfg0 =
     (let cfg = (case cfg0 of None \<Rightarrow> DefaultAsyncConfig | Some c \<Rightarrow> c);
          qs = (if QueueSize cfg \<le> 0 then 10000 else QueueSize cfg);
          bs = (if BatchSize cfg \<le> 0 then 100 else BatchSize cfg);
          fp = (if FlushPeriod cfg \<le> 0 then 100 * 1000000 else FlushPeriod cfg);
          ws = (if Workers cfg \<le> 0 then 2 else Workers cfg)
      in \<lparr>queue = [], queue_cap = nat qs, batchSize = nat bs, flushPeriod = fp,
          workers = nat ws, stopped = False, stopChan_closed = False,
          batches = replicate (nat ws) [], store_errors = 0, store_successes = 0,
          queue_depth_gauge = 0, inner_batches = [], inner_closes = 0,
          inner_accepts = accepts, inner_close_error = close_error\<rparr>)"

text \<open>\<open>Store\<close>: the \<open>select\<close> sends when the channel has room and takes the
  \<open>default\<close> branch otherwise. Every path returns \<open>nil\<close>.\<close>

definition Store ::
  "'r AsyncTrafficStoreWrapper \<Rightarrow> 'r \<Rightarrow> string option \<times> 'r AsyncTrafficStoreWrapper" where
  "Store w rec =
     (if stopped w then (None, w)
      else if length (queue w) < queue_cap w then
        (None, w\<lparr>queue := queue w @ [rec], queue_depth_gauge := length (queue w) + 1\<rparr>)
      else (None, w\<lparr>store_errors := store_errors w + 1\<rparr>))"

fun StoreBatch ::
  "'r AsyncTrafficStoreWrapper \<Rightarrow> 'r list \<Rightarrow> string option \<times> 'r AsyncTrafficStoreWrapper" where
  "StoreBatch w [] = (None, w)"
| "StoreBatch w (rec # recs) =
     (case Store w rec of
        (Some err, w') \<Rightarrow> (Some err, w')
      | (None, w') \<Rightarrow> StoreBatch w' recs)"

definition QueueDepth :: "'r AsyncTrafficStoreWrapper \<Rightarrow> nat" where
  "QueueDepth w = length (queue w)"

text \<open>The closure \<open>flush\<close> of worker \<open>i\<close>, and the three branches of the worker's
  \<open>select\<close>: receiving a record, a tick of the flush timer, and the drain after
  \<open>stopChan\<close> is closed.\<close>

definition flush :: "'r AsyncTrafficStoreWrapper \<Rightarrow> nat \<Rightarrow> 'r AsyncTrafficStoreWrapper" where
  "flush w i =
     (let batch = batches w ! i
      in if length batch = 0 then w
         else
           (if inner_accepts w batch
            then w\<lparr>store_successes := store_successes w + length batch\<rparr>
            else w\<lparr>store_errors := store_errors w + 1\<rparr>)
           \<lparr>inner_batches := inner_batches w @ [batch],
            batches := (batches w)[i := []],
            queue_depth_gauge := length (queue w)\<rparr>)"

definition worker_receive :: "'r AsyncTrafficStoreWrapper \<Rightarrow> nat \<Rightarrow> 'r AsyncTrafficStoreWrapper" where
  "worker_receive w i =
     (case queue w of
        [] \<Rightarrow> w
      | rec # rest \<Rightarrow>
          let w' = w\<lparr>queue := rest, batches := (batches w)[i := batches w ! i @ [rec]]\<rparr>
          in if length (batches w' ! i) \<ge> batchSize w' then flush w' i else w')"

definition worker_tick :: "'r AsyncTrafficStoreWrapper \<Rightarrow> nat \<Rightarrow> 'r AsyncTrafficStoreWrapper" where
  "worker_tick w i = flush w i"

function worker_drain :: "'r AsyncTrafficStoreWrapper \<Rightarrow> nat \<Rightarrow> 'r AsyncTrafficStoreWrapper" where
  "worker_drain w i =
     (if queue w = [] then flush w i else worker_drain (worker_receive w i) i)"
  by pat_completeness auto
termination
  by (relation "measure (\<lambda>(w, i). length (queue w))")
    (auto simp: worker_receive_def flush_def Let_def split: list.splits)

declare worker_drain.simps [simp del]

text \<open>\<open>Close\<close>: sets \<open>stopped\<close>, closes \<open>stopChan\<close> (closing a closed channel is a
  run-time panic in Go), waits for the workers, which drain the queue one after the
  other here, and closes the wrapped store.\<close>

definition Close ::
  "'r AsyncTrafficStoreWrapper \<Rightarrow> (panic + string option) \<times> 'r AsyncTrafficStoreWrapper" where
  "Close w =
     (let w1 = w\<lparr>stopped := True\<rparr>
      in if stopChan_closed w1 then (Inl CloseOfClosedChannel, w1)
         else
           let w2 = w1\<lparr>stopChan_closed := True\<rparr>;
               w3 = foldl worker_drain w2 [0..<workers w2]
           in (Inr (inner_close_error w3), w3\<lparr>inner_closes := inner_closes w3 + 1\<rparr>))"

text \<open>A sample wrapper: queue size 2 and one worker, over a store that accepts every
  batch and closes without error; its records are numbers.\<close>

definition accept_all :: "nat list \<Rightarrow> bool" where
  "accept_all batch = True"

definition small_wrapper :: "nat AsyncTrafficStoreWrapper" where
  "small_wrapper =
     NewAsyncTrafficStore accept_all None
       (Some \<lparr>QueueSize = 2, BatchSize = 100, FlushPeriod = 0, Workers = 1\<rparr>)"

section \<open>Properties\<close>

subsection \<open>Host matching of the sampling store\<close>

lemma ends_with_iff:
  "(length s \<le> length host \<and> drop (length host - length s) host = s) = (\<exists>p. host = p @ s)"
proof
  assume h: "length s \<le> length host \<and> drop (length host - length s) host = s"
  have "host = take (length host - length s) host @ drop (length host - length s) host"
    by simp
  with h have "host = take (length host - length s) host @ s" by simp
  then show "\<exists>p. host = p @ s" ..
next
  assume "\<exists>p. host = p @ s"
  then obtain p where "host = p @ s" ..
  then show "length s \<le> length host \<and> drop (length host - length s) host = s" by simp
qed

text \<open>C10. In the sampling store a pattern \<open>*rest\<close> matches exactly the hosts that end
  with \<open>rest\<close> after one leading dot of \<open>rest\<close> is dropped, so \<open>*.example.com\<close>
  matches \<open>badexample.com\<close> and the bare \<open>example.com\<close>; the proxy engine's
  \<open>matchWildcard\<close> keeps the dot (a host must end with \<open>.suffix\<close>) and matches
  neither.\<close>

theorem sampling_matchHost_overmatches:
  "backend_matchHost host (CHR ''*'' # rest) =
     (\<exists>p. host = p @ (if rest \<noteq> [] \<and> hd rest = CHR ''.'' then tl rest else rest))
   \<and> matchWildcard (CHR ''*'' # rest) host = (\<exists>p. host = p @ rest)
   \<and> backend_matchHost ''badexample.com'' ''*.example.com''
   \<and> backend_matchHost ''example.com'' ''*.example.com''
   \<and> backend_matchHost ''api.example.com'' ''*.example.com''
   \<and> \<not> matchWildcard ''*.example.com'' ''badexample.com''
   \<and> \<not> matchWildcard ''*.example.com'' ''example.com''
   \<and> matchWildcard ''*.example.com'' ''api.example.com''"
proof -
  have a: "backend_matchHost host (CHR ''*'' # rest) =
     (\<exists>p. host = p @ (if rest \<noteq> [] \<and> hd rest = CHR ''.'' then tl rest else rest))"
    by (simp add: backend_matchHost_def Let_def ends_with_iff)
  have b: "matchWildcard (CHR ''*'' # rest) host = (\<exists>p. host = p @ rest)"
    by (simp add: matchWildcard_def Let_def ends_with_iff)
  have c: "backend_matchHost ''badexample.com'' ''*.example.com''"
    by (simp add: backend_matchHost_def Let_def)
  have d: "backend_matchHost ''example.com'' ''*.example.com''"
    by (simp add: backend_matchHost_def Let_def)
  have e: "backend_matchHost ''api.example.com'' ''*.example.com''"
    by (simp add: backend_matchHost_def Let_def)
  have f: "\<not> matchWildcard ''*.example.com'' ''badexample.com''"
    by (simp add: matchWildcard_def Let_def)
  have g: "\<not> matchWildcard ''*.example.com'' ''example.com''"
    by (simp add: matchWildcard_def Let_def)
  have h: "matchWildcard ''*.example.com'' ''api.example.com''"
    by (simp add: matchWildcard_def Let_def)
  from a b c d e f g h show ?thesis by blast
qed

subsection \<open>The classifier returns\<close>

lemma detectByHeuristic_returns:
  "0 \<le> CheckBytes opts \<Longrightarrow> \<exists>info. detectByHeuristic data opts = Inr info"
  by (simp add: detectByHeuristic_def Let_def)

lemma Detect_returns: "\<exists>info. DetectWithOptions contentType data None = Inr info"
proof -
  have "0 \<le> CheckBytes DefaultOptions" by (simp add: DefaultOptions_def)
  from detectByHeuristic_returns [OF this, of data] show ?thesis
    by (auto simp: DetectWithOptions_def Let_def split: option.splits)
qed

text \<open>Without a usable content type and without a signature match the detection is
  the heuristic.\<close>

lemma DetectWithOptions_heuristic:
  assumes "\<not> TrustContentType opts \<or> normalizeContentType contentType = []
           \<or> detectByContentType (normalizeContentType contentType) = None"
    and "detectByMagicBytes data = None"
  shows "DetectWithOptions contentType data (Some opts) = detectByHeuristic data opts"
  using assms by (auto simp: DetectWithOptions_def Let_def split: option.splits)

subsection \<open>Heuristic classification\<close>

lemma count_byte_fields:
  "nullBytes (count_byte c b) = nullBytes c + (if is_null_byte b then 1 else 0)"
  "controlBytes (count_byte c b) = controlBytes c + (if is_control_byte b then 1 else 0)"
  "highBitBytes (count_byte c b) = highBitBytes c + (if is_highbit_byte b then 1 else 0)"
  "printableBytes (count_byte c b) = printableBytes c + (if is_printable_byte b then 1 else 0)"
  unfolding count_byte_def is_null_byte_def is_control_byte_def is_highbit_byte_def
    is_printable_byte_def word_less_nat_alt word_le_nat_alt word_unat_eq_iff
  by auto

lemma foldl_count_byte:
  "nullBytes (foldl count_byte c xs) = nullBytes c + length (filter is_null_byte xs)
   \<and> controlBytes (foldl count_byte c xs) = controlBytes c + length (filter is_control_byte xs)
   \<and> highBitBytes (foldl count_byte c xs) = highBitBytes c + length (filter is_highbit_byte xs)
   \<and> printableBytes (foldl count_byte c xs)
       = printableBytes c + length (filter is_printable_byte xs)"
  by (induction xs arbitrary: c) (simp_all add: count_byte_fields)

lemma count_bytes_filter:
  "nullBytes (count_bytes xs) = length (filter is_null_byte xs)"
  "controlBytes (count_bytes xs) = length (filter is_control_byte xs)"
  "highBitBytes (count_bytes xs) = length (filter is_highbit_byte xs)"
  "printableBytes (count_bytes xs) = length (filter is_printable_byte xs)"
  using foldl_count_byte
    [of "\<lparr>nullBytes = 0, controlBytes = 0, highBitBytes = 0, printableBytes = 0, whitespace = 0\<rparr>" xs]
  by (simp_all add: count_bytes_def)

lemma ratio_exceeds_byte_ratio:
  "xs \<noteq> [] \<Longrightarrow> ratio_exceeds (length (filter P xs)) (length xs) t = (byte_ratio P xs > t)"
  by (simp add: ratio_exceeds_def byte_ratio_def)

lemma byte_ratio_pos:
  "byte_ratio P xs > 1 / 100 \<Longrightarrow> length (filter P xs) > 0"
  by (auto simp: byte_ratio_def intro: ccontr)

text \<open>The code's \<open>looksLikeJSON\<close> decides what the specification calls looking like
  JSON.\<close>

lemma json_whitespace_eq: "json_whitespace = isWhitespace"
  by (auto simp: json_whitespace_def isWhitespace_def fun_eq_iff)

lemma json_scan_depths:
  "0 < d \<Longrightarrow>
   json_scan opening closing d s e rest =
     (let depths = bracket_depths opening closing d s e rest;
          still_open = takeWhile (\<lambda>x. x \<noteq> 0) depths
      in if length still_open < length depths
         then list_all isWhitespace (drop (length still_open + 1) rest)
         else 0 < last (d # depths) \<and> last (d # depths) < 100)"
proof (induction rest arbitrary: d s e)
  case Nil
  then show ?case by simp
next
  case (Cons b rest)
  have pos: "0 < d" by fact
  have nz: "d \<noteq> 0" using pos by simp
  have up: "0 < d + 1" and unz: "d + 1 \<noteq> 0" using pos by simp_all
  show ?case
  proof (cases e)
    case True
    with nz Cons.IH [OF pos, of s False] show ?thesis by (simp add: Let_def)
  next
    case ne: False
    show ?thesis
    proof (cases s)
      case True
      consider (bs) "b = 0x5C" | (qt) "b \<noteq> 0x5C" "b = 0x22" | (other) "b \<noteq> 0x5C" "b \<noteq> 0x22"
        by blast
      then show ?thesis
      proof cases
        case bs
        with ne True nz Cons.IH [OF pos, of True True] show ?thesis by (simp add: Let_def)
      next
        case qt
        with ne True nz Cons.IH [OF pos, of False False] show ?thesis by (simp add: Let_def)
      next
        case other
        with ne True nz Cons.IH [OF pos, of True False] show ?thesis by (simp add: Let_def)
      qed
    next
      case ns: False
      consider (qt) "b = 0x22" | (op) "b \<noteq> 0x22" "b = opening"
        | (cl) "b \<noteq> 0x22" "b \<noteq> opening" "b = closing"
        | (other) "b \<noteq> 0x22" "b \<noteq> opening" "b \<noteq> closing"
        by blast
      then show ?thesis
      proof cases
        case qt
        with ne ns nz Cons.IH [OF pos, of True False] show ?thesis by (simp add: Let_def)
      next
        case op
        with ne ns unz Cons.IH [OF up, of False False] show ?thesis by (simp add: Let_def)
      next
        case cl
        show ?thesis
        proof (cases "d - 1 = 0")
          case True
          with ne ns cl show ?thesis by (simp add: Let_def)
        next
          case False
          with pos have "0 < d - 1" by simp
          from Cons.IH [OF this, of False False] ne ns cl False show ?thesis
            by (simp add: Let_def)
        qed
      next
        case other
        with ne ns nz Cons.IH [OF pos, of False False] show ?thesis by (simp add: Let_def)
      qed
    qed
  qed
qed

lemma looksLikeJSON_spec: "looksLikeJSON data = looks_like_json data"
proof (cases "dropWhile isWhitespace data")
  case Nil
  show ?thesis
    unfolding looksLikeJSON_def looks_like_json_def json_whitespace_eq Nil by simp
next
  case (Cons b rest)
  have scan: "json_scan b c 1 False False rest =
     (let depths = bracket_depths b c 1 False False rest;
          still_open = takeWhile (\<lambda>x. x \<noteq> 0) depths
      in if length still_open < length depths
         then list_all isWhitespace (drop (length still_open + 1) rest)
         else 0 < last (1 # depths) \<and> last (1 # depths) < 100)" for c
    by (rule json_scan_depths) simp
  consider (brace) "b = 0x7B" | (bracket) "b = 0x5B" | (other) "b \<noteq> 0x7B" "b \<noteq> 0x5B"
    by blast
  then show ?thesis
  proof cases
    case brace
    with scan [of "0x7D"] show ?thesis
      unfolding looksLikeJSON_def looks_like_json_def json_whitespace_eq Cons by simp
  next
    case bracket
    with scan [of "0x5D"] show ?thesis
      unfolding looksLikeJSON_def looks_like_json_def json_whitespace_eq Cons by simp
  next
    case other
    then show ?thesis
      unfolding looksLikeJSON_def looks_like_json_def json_whitespace_eq Cons by simp
  qed
qed

text \<open>Every sample that is valid UTF-8 is accepted by the code's \<open>isValidUTF8\<close>; the
  converse fails (C7).\<close>

lemma byte_in_range:
  fixes b :: byte
  assumes "lo \<le> unat b" and "unat b < hi"
  shows "b \<in> set (map of_nat [lo..<hi])"
proof -
  have "b = of_nat (unat b)" by simp
  moreover have "unat b \<in> set [lo..<hi]" using assms by simp
  ultimately show ?thesis by (metis image_eqI set_map)
qed

lemma utf8_lead_2:
  fixes b :: byte
  assumes "0xC2 \<le> b" and "b \<le> 0xDF"
  shows "utf8_lead b = Some (2, 0x80, 0xBF)"
proof -
  from assms have "194 \<le> unat b" and "unat b < 224"
    by (simp_all add: word_le_nat_alt)
  from byte_in_range [OF this] show ?thesis
    by (auto simp: utf8_lead_def upt_rec)
qed

lemma utf8_lead_3:
  fixes b :: byte
  assumes "0xE0 \<le> b" and "b \<le> 0xEF"
  shows "utf8_lead b = Some (3, 0x80, 0xBF)"
proof -
  from assms have "224 \<le> unat b" and "unat b < 240"
    by (simp_all add: word_le_nat_alt)
  from byte_in_range [OF this] show ?thesis
    by (auto simp: utf8_lead_def upt_rec)
qed

lemma utf8_lead_4:
  fixes b :: byte
  assumes "0xF0 \<le> b" and "b \<le> 0xF4"
  shows "utf8_lead b = Some (4, 0x80, 0xBF)"
proof -
  from assms have "240 \<le> unat b" and "unat b < 245"
    by (simp_all add: word_le_nat_alt)
  from byte_in_range [OF this] show ?thesis
    by (auto simp: utf8_lead_def upt_rec)
qed


lemma drop_Cons_nth:
  assumes "drop k xs = y # ys"
  shows "k < length xs" and "xs ! k = y" and "drop (Suc k) xs = ys"
proof -
  show k: "k < length xs"
  proof (rule ccontr)
    assume "\<not> k < length xs"
    then have "drop k xs = []" by simp
    with assms show False by simp
  qed
  from Cons_nth_drop_Suc [OF k] assms show "xs ! k = y" and "drop (Suc k) xs = ys" by simp_all
qed

lemma continuation_in_range:
  "is_continuation_byte c \<Longrightarrow> \<not> (c < 0x80 \<or> c > 0xBF)"
  by (auto simp: is_continuation_byte_def)

lemma utf8_wellformed_from:
  "utf8_wellformed (drop i data) \<Longrightarrow> isValidUTF8_from data i"
proof (induction "length data - i" arbitrary: i rule: less_induct)
  case less
  show ?case
  proof (cases "i < length data")
    case False
    then show ?thesis by (simp add: isValidUTF8_from.simps [of data i])
  next
    case True
    let ?b = "data ! i"
    have d: "drop i data = ?b # drop (Suc i) data"
      using True by (simp add: Cons_nth_drop_Suc)
    from less.prems have wf: "utf8_wellformed (?b # drop (Suc i) data)" using d by simp
    have step: "isValidUTF8_from data (i + n)"
      if "0 < n" and "utf8_wellformed (drop (i + n) data)" for n
    proof (cases "i + n \<le> length data")
      case le: True
      with that(1) True have "length data - (i + n) < length data - i" by simp
      from less.hyps [OF this that(2)] show ?thesis .
    next
      case False
      then show ?thesis by (simp add: isValidUTF8_from.simps [of data "i + n"])
    qed
    consider (ascii) "?b < 0x80"
      | (two) "\<not> ?b < 0x80" "0xC2 \<le> ?b" "?b \<le> 0xDF"
      | (three) "\<not> ?b < 0x80" "\<not> (0xC2 \<le> ?b \<and> ?b \<le> 0xDF)" "0xE0 \<le> ?b" "?b \<le> 0xEF"
      | (four) "\<not> ?b < 0x80" "\<not> (0xC2 \<le> ?b \<and> ?b \<le> 0xDF)" "\<not> (0xE0 \<le> ?b \<and> ?b \<le> 0xEF)"
          "0xF0 \<le> ?b" "?b \<le> 0xF4"
      using wf by (auto split: if_splits)
    then show ?thesis
    proof cases
      case ascii
      with wf have "utf8_wellformed (drop (i + 1) data)" by simp
      from step [OF _ this] ascii True show ?thesis
        by (simp add: isValidUTF8_from.simps [of data i])
    next
      case two
      from wf two obtain c1 r where r: "drop (Suc i) data = c1 # r"
        and c: "is_continuation_byte c1" and w: "utf8_wellformed r"
        by (auto split: list.splits)
      note n1 = drop_Cons_nth [OF r]
      have "utf8_wellformed (drop (i + 2) data)" using n1(3) w by simp
      from step [OF _ this] have rec: "isValidUTF8_from data (i + 2)" by simp
      have len: "\<not> length data < i + 2" using n1(1) by simp
      show ?thesis
        using two(1) True utf8_lead_2 [OF two(2,3)] len rec continuation_in_range [OF c] n1(2)
        by (simp add: isValidUTF8_from.simps [of data i] upt_rec)
    next
      case three
      from wf three obtain c1 c2 r where r: "drop (Suc i) data = c1 # c2 # r"
        and c: "is_continuation_byte c1" "is_continuation_byte c2" and w: "utf8_wellformed r"
        by (auto split: list.splits if_splits)
      note n1 = drop_Cons_nth [OF r]
      note n2 = drop_Cons_nth [OF n1(3)]
      have "utf8_wellformed (drop (i + 3) data)" using n2(3) w by (simp add: numeral_3_eq_3)
      from step [OF _ this] have rec: "isValidUTF8_from data (i + 3)" by simp
      have len: "\<not> length data < i + 3" using n2(1) by simp
      have i2: "data ! (i + 2) = c2" using n2(2) by (simp add: numeral_2_eq_2)
      show ?thesis
        using three(1) True utf8_lead_3 [OF three(3,4)] len rec
          continuation_in_range [OF c(1)] continuation_in_range [OF c(2)] n1(2) i2
        by (simp add: isValidUTF8_from.simps [of data i] upt_rec)
    next
      case four
      from wf four obtain c1 c2 c3 r where r: "drop (Suc i) data = c1 # c2 # c3 # r"
        and c: "is_continuation_byte c1" "is_continuation_byte c2" "is_continuation_byte c3"
        and w: "utf8_wellformed r"
        by (auto split: list.splits if_splits)
      note n1 = drop_Cons_nth [OF r]
      note n2 = drop_Cons_nth [OF n1(3)]
      note n3 = drop_Cons_nth [OF n2(3)]
      have "drop (i + 4) data = drop (Suc (Suc (Suc (Suc i)))) data"
        by (simp add: eval_nat_numeral)
      then have "utf8_wellformed (drop (i + 4) data)" using n3(3) w by simp
      from step [OF _ this] have rec: "isValidUTF8_from data (i + 4)" by simp
      have len: "\<not> length data < i + 4" using n3(1) by simp
      have i2: "data ! (i + 2) = c2" using n2(2) by (simp add: numeral_2_eq_2)
      have i3: "data ! (i + 3) = c3" using n3(2) by (simp add: numeral_3_eq_3)
      show ?thesis
        using four(1) True utf8_lead_4 [OF four(4,5)] len rec
          continuation_in_range [OF c(1)] continuation_in_range [OF c(2)]
          continuation_in_range [OF c(3)] n1(2) n2(2) n3(2) i2 i3
        by (simp add: isValidUTF8_from.simps [of data i] upt_rec)
    qed
  qed
qed

lemma utf8_wellformed_accepted: "utf8_wellformed data \<Longrightarrow> isValidUTF8 data"
  using utf8_wellformed_from [of 0 data] by (simp add: isValidUTF8_def)

text \<open>On every sample on which \<open>isValidUTF8\<close> does not accept a malformed sequence,
  \<open>detectByHeuristic\<close> with \<open>CheckBytes = 512\<close> returns the verdict of the rules,
  taken over the first \<open>min(len, 512)\<close> bytes.\<close>

lemma detectByHeuristic_follows_rules:
  assumes "CheckBytes opts = 512"
    and "isValidUTF8 (take 512 data) \<Longrightarrow> utf8_wellformed (take 512 data)"
  shows "\<exists>info. detectByHeuristic data opts = Inr info
           \<and> ci_Method info = ''heuristic''
           \<and> ci_IsText info = (\<not> ci_IsBinary info)
           \<and> (ci_IsBinary info, ci_Confidence info)
               = heuristic_rules (HighBitThreshold opts) (take 512 data)"
proof (cases "data = []")
  case True
  then show ?thesis
    by (simp add: detectByHeuristic_def heuristic_rules_def heuristic_info_def)
next
  case False
  define sample where "sample = take 512 data"
  have ne: "sample \<noteq> []" using False by (simp add: sample_def)
  have tk: "take (nat (if 512 > int (length data) then int (length data) else 512)) data = sample"
    by (simp add: sample_def)
  have nul: "(nullBytes (count_bytes sample) > 0
              \<and> ratio_exceeds (nullBytes (count_bytes sample)) (length sample) (1 / 100))
             = (byte_ratio is_null_byte sample > 1 / 100)"
    using byte_ratio_pos [of is_null_byte sample]
    by (auto simp: count_bytes_filter ratio_exceeds_byte_ratio [OF ne])
  have utf: "isValidUTF8 sample = utf8_wellformed sample"
    using assms(2) utf8_wellformed_accepted [of sample] by (auto simp: sample_def)
  show ?thesis
    using False ne
    unfolding detectByHeuristic_def assms(1) Let_def tk
    apply (simp only: nul)
    apply (simp only: count_bytes_filter ratio_exceeds_byte_ratio [OF ne] utf looksLikeJSON_spec)
    apply (simp add: heuristic_rules_def heuristic_info_def sample_def [symmetric])
    done
qed

text \<open>The rules on the overlong encoding \<open>E0 80 80\<close>: binary, with confidence
  0.75.\<close>

lemma heuristic_rules_overlong:
  "heuristic_rules (HighBitThreshold DefaultOptions) (take 512 [0xE0, 0x80, 0x80]) = (True, 75 / 100)"
  by (simp add: heuristic_rules_def DefaultOptions_def byte_ratio_def is_null_byte_def
      is_control_byte_def is_highbit_byte_def is_continuation_byte_def)

text \<open>C6. On the sample \<open>E0 80 80\<close>, which has no content-type hint and matches no
  signature, the null and the control rule do not apply, the high-bit ratio exceeds
  the default threshold and the sample is not valid UTF-8, so the rules make it binary
  with confidence 0.75. \<open>detectByHeuristic\<close>, and with it \<open>Detect\<close> and
  \<open>IsBinary\<close>, make it text with confidence 0.70, because \<open>isValidUTF8\<close> accepts
  the overlong encoding (C7).\<close>

theorem detectByHeuristic_overlong_as_text:
  "detectByHeuristic [0xE0, 0x80, 0x80] DefaultOptions
     = Inr (heuristic_info False ''text/plain'' [] (70 / 100))
   \<and> Detect [] [0xE0, 0x80, 0x80] = Inr (heuristic_info False ''text/plain'' [] (70 / 100))
   \<and> \<not> contentdetect_IsBinary [] [0xE0, 0x80, 0x80]
   \<and> \<not> byte_ratio is_null_byte [0xE0, 0x80, 0x80] > 1 / 100
   \<and> \<not> byte_ratio is_control_byte [0xE0, 0x80, 0x80] > 5 / 100
   \<and> byte_ratio is_highbit_byte [0xE0, 0x80, 0x80] > HighBitThreshold DefaultOptions
   \<and> \<not> utf8_wellformed [0xE0, 0x80, 0x80]"
proof -
  have v: "isValidUTF8 [0xE0, 0x80, 0x80]" by code_simp
  have a: "detectByHeuristic [0xE0, 0x80, 0x80] DefaultOptions
     = Inr (heuristic_info False ''text/plain'' [] (70 / 100))"
    using v
    by (simp add: detectByHeuristic_def DefaultOptions_def Let_def count_bytes_def count_byte_def
        ratio_exceeds_def)
  have m: "detectByMagicBytes [0xE0, 0x80, 0x80] = None" by code_simp
  have b: "Detect [] [0xE0, 0x80, 0x80] = Inr (heuristic_info False ''text/plain'' [] (70 / 100))"
    using a m by (simp add: Detect_def DetectWithOptions_def Let_def normalizeContentType_def
        strings_TrimSpace_def strings_ToLower_def)
  have c: "\<not> contentdetect_IsBinary [] [0xE0, 0x80, 0x80]"
    using b by (simp add: contentdetect_IsBinary_def Detect_def heuristic_info_def)
  have d: "\<not> byte_ratio is_null_byte [0xE0, 0x80, 0x80] > 1 / 100"
    and e: "\<not> byte_ratio is_control_byte [0xE0, 0x80, 0x80] > 5 / 100"
    and f: "byte_ratio is_highbit_byte [0xE0, 0x80, 0x80] > HighBitThreshold DefaultOptions"
    by (simp_all add: byte_ratio_def is_null_byte_def is_control_byte_def is_highbit_byte_def
        DefaultOptions_def)
  have g: "\<not> utf8_wellformed [0xE0, 0x80, 0x80]"
    by (simp add: is_continuation_byte_def)
  from a b c d e f g show ?thesis by blast
qed

subsection \<open>UTF-8 validation\<close>

text \<open>C7. The 3-byte overlong encoding \<open>E0 80 80\<close> and the 4-byte overlong
  encoding \<open>F0 80 80 80\<close> are accepted, while the 2-byte overlong encoding
  \<open>C0 AF\<close> is rejected: only the 2-byte branch of \<open>isValidUTF8\<close> has an overlong
  check; the 3- and 4-byte branches allow every continuation byte in \<open>80..BF\<close>
  after every lead byte.\<close>

theorem isValidUTF8_accepts_overlong:
  "isValidUTF8 [0xE0, 0x80, 0x80] \<and> isValidUTF8 [0xF0, 0x80, 0x80, 0x80]
   \<and> \<not> isValidUTF8 [0xC0, 0xAF]"
  by code_simp

subsection \<open>Header redaction and header keys\<close>

lemma lower_byte_not_upper:
  "\<not> ((65::nat) \<le> of_char (lower_byte c) \<and> of_char (lower_byte c) \<le> (90::nat))"
  by (simp add: lower_byte_def)

lemma lower_byte_idem: "lower_byte (lower_byte c) = lower_byte c"
  using lower_byte_not_upper [of c] by (auto simp: lower_byte_def [of "lower_byte c"])

lemma normalizeHeader_idem: "normalizeHeader (normalizeHeader s) = normalizeHeader s"
  by (simp add: normalizeHeader_def lower_byte_idem)

lemma normalizeHeader_no_upper: "no_ascii_upper (normalizeHeader s)"
  using lower_byte_not_upper by (simp add: no_ascii_upper_def normalizeHeader_def list_all_iff)

lemma filterHeaders_step_Some:
  "filterHeaders_step cfg m kv k = Some v \<Longrightarrow>
     m k = Some v \<or> (k = normalizeHeader (fst kv) \<and> snd kv \<noteq> [] \<and> v = hd (snd kv)
                  \<and> \<not> list_ex (\<lambda>f. normalizeHeader f = k) (FilterHeaders cfg))"
  by (auto simp: filterHeaders_step_def Let_def split: if_splits)

lemma filterHeaders_loop_Some:
  "foldl (filterHeaders_step cfg) m h k = Some v \<Longrightarrow>
     m k = Some v \<or> (\<exists>kv \<in> set h. k = normalizeHeader (fst kv) \<and> snd kv \<noteq> [] \<and> v = hd (snd kv))
                     \<and> \<not> list_ex (\<lambda>f. normalizeHeader f = k) (FilterHeaders cfg)"
proof (induction h arbitrary: m)
  case Nil
  then show ?case by simp
next
  case (Cons kv h)
  from Cons.prems have "foldl (filterHeaders_step cfg) (filterHeaders_step cfg m kv) h k = Some v"
    by simp
  from Cons.IH [OF this] show ?case
    using filterHeaders_step_Some [of cfg m kv k v] by auto
qed

lemma filterHeaders_Some:
  assumes "filterHeaders cfg h k = Some v"
  shows "normalizeHeader k = k"
    and "\<forall>f \<in> set (FilterHeaders cfg). normalizeHeader f \<noteq> normalizeHeader k"
    and "\<exists>kv \<in> set h. normalizeHeader (fst kv) = k \<and> snd kv \<noteq> [] \<and> v = hd (snd kv)"
proof -
  from assms filterHeaders_loop_Some [of cfg Map.empty h k v]
  have a: "\<exists>kv \<in> set h. k = normalizeHeader (fst kv) \<and> snd kv \<noteq> [] \<and> v = hd (snd kv)"
    and b: "\<not> list_ex (\<lambda>f. normalizeHeader f = k) (FilterHeaders cfg)"
    by (auto simp: filterHeaders_def)
  from a show c: "normalizeHeader k = k" by (auto simp: normalizeHeader_idem)
  from b c show "\<forall>f \<in> set (FilterHeaders cfg). normalizeHeader f \<noteq> normalizeHeader k"
    by (auto simp: list_ex_iff)
  from a show "\<exists>kv \<in> set h. normalizeHeader (fst kv) = k \<and> snd kv \<noteq> [] \<and> v = hd (snd kv)"
    by auto
qed

lemma StartCapture_Headers:
  "rr_Headers (Request (StartCapture unmarshal c now req)) =
     (if IncludeHeaders (config c) \<and> req_Header req \<noteq> []
      then filterHeaders (config c) (req_Header req) else Map.empty)"
  by (simp add: StartCapture_def Let_def split: option.splits)

lemma FinishCapture_Headers:
  "rs_Headers (Response (snd (FinishCapture unmarshal c now rec0 (Some resp)))) =
     (if IncludeHeaders (config c) \<and> resp_Header resp \<noteq> []
      then filterHeaders (config c) (resp_Header resp) else Map.empty)"
  by (simp add: FinishCapture_def Let_def split: option.splits)





lemma StartCapture_fields:
  "rr_Host (Request (StartCapture unmarshal c now req)) = req_Host req"
  "rr_Path (Request (StartCapture unmarshal c now req)) = url_Path (req_URL req)"
  "rr_Method (Request (StartCapture unmarshal c now req)) = req_Method req"
  "rs_Headers (Response (StartCapture unmarshal c now req)) = Map.empty"
  by (simp_all add: StartCapture_def Let_def split: option.splits)

lemma filterHeaders_dom_no_upper:
  assumes "k \<in> dom (filterHeaders cfg h)"
  shows "no_ascii_upper k"
proof -
  from assms obtain v where "filterHeaders cfg h k = Some v" by blast
  from filterHeaders_Some(1) [OF this] have "k = normalizeHeader k" by simp
  then show ?thesis using normalizeHeader_no_upper [of k] by simp
qed

text \<open>C5, the claim as stated fails: the record of the proxy request
  \<open>GET http://example.com\<close> has an empty path.\<close>

theorem StartCapture_empty_path:
  "rr_Path (Request (StartCapture empty_object_decoder default_capturer 0 bare_request)) = []"
  by (simp add: StartCapture_fields bare_request_def)

text \<open>C5, amended. The host, path and method of a record made by \<open>StartCapture\<close> are the
  request's \<open>Host\<close>, \<open>URL.Path\<close> and \<open>Method\<close>, copied unchanged, and no key of
  the header maps of the request (\<open>StartCapture\<close>) and of the response
  (\<open>StartCapture\<close>, \<open>FinishCapture\<close>) contains a letter \<open>A..Z\<close>.\<close>

theorem record_fields_copied_keys_lowercase:
  "rr_Host (Request (StartCapture unmarshal c now req)) = req_Host req
   \<and> rr_Path (Request (StartCapture unmarshal c now req)) = url_Path (req_URL req)
   \<and> rr_Method (Request (StartCapture unmarshal c now req)) = req_Method req
   \<and> (\<forall>k \<in> dom (rr_Headers (Request (StartCapture unmarshal c now req))). no_ascii_upper k)
   \<and> (\<forall>k \<in> dom (rs_Headers (Response (StartCapture unmarshal c now req))). no_ascii_upper k)
   \<and> (\<forall>k \<in> dom (rs_Headers (Response (snd (FinishCapture unmarshal c now' rec0 (Some resp))))).
         no_ascii_upper k)"
proof -
  have a: "\<forall>k \<in> dom (rr_Headers (Request (StartCapture unmarshal c now req))). no_ascii_upper k"
    by (auto simp: StartCapture_Headers intro: filterHeaders_dom_no_upper split: if_splits)
  have b: "\<forall>k \<in> dom (rs_Headers (Response (snd (FinishCapture unmarshal c now' rec0 (Some resp))))).
         no_ascii_upper k"
    by (auto simp: FinishCapture_Headers intro: filterHeaders_dom_no_upper split: if_splits)
  from a b show ?thesis by (simp add: StartCapture_fields)
qed

theorem record_fields_copied_keys_lowercase_witness:
  "rr_Host (Request (StartCapture empty_object_decoder default_capturer 0 upload_request))
     = ''api.example.com''
   \<and> rr_Path (Request (StartCapture empty_object_decoder default_capturer 0 upload_request))
     = ''/upload''
   \<and> rr_Method (Request (StartCapture empty_object_decoder default_capturer 0 upload_request))
     = ''POST''
   \<and> ''content-type'' \<in> dom (rr_Headers
         (Request (StartCapture empty_object_decoder default_capturer 0 upload_request)))
   \<and> no_ascii_upper ''content-type''"
proof -
  have k: "rr_Headers (Request (StartCapture empty_object_decoder default_capturer 0 upload_request))
        ''content-type'' = Some ''image/png''"
    unfolding StartCapture_Headers by code_simp
  then have d: "''content-type'' \<in> dom (rr_Headers
         (Request (StartCapture empty_object_decoder default_capturer 0 upload_request)))"
    by blast
  from record_fields_copied_keys_lowercase
    [of empty_object_decoder default_capturer 0 upload_request] d
  show ?thesis by (auto simp: upload_request_def)
qed

subsection \<open>Bodies\<close>

lemma StartCapture_ContentType:
  "rr_ContentType (Request (StartCapture unmarshal c now req)) =
     (if IncludeHeaders (config c) \<and> req_Header req \<noteq> []
      then Header_Get (req_Header req) ''Content-Type'' else [])"
  by (simp add: StartCapture_def Let_def split: option.splits)

lemma FinishCapture_ContentType:
  "rs_ContentType (Response (snd (FinishCapture unmarshal c now rec0 (Some resp)))) =
     (if IncludeHeaders (config c) \<and> resp_Header resp \<noteq> []
      then Header_Get (resp_Header resp) ''Content-Type'' else [])"
  by (simp add: FinishCapture_def Let_def split: option.splits)

lemma StartCapture_body:
  assumes "IncludeBody (config c)" and "req_Body req = Some r"
    and "0 < req_ContentLength req" and "req_ContentLength req \<le> MaxBodySize (config c)"
    and "ReadAll_Limit r (MaxBodySize (config c)) = Some body" and "body \<noteq> []"
  shows "rr_BodySize (Request (StartCapture unmarshal c now req)) = int (length body)"
    and "rr_IsBinary (Request (StartCapture unmarshal c now req)) =
           (SkipBinary (config c)
            \<and> contentdetect_IsBinary (rr_ContentType (Request (StartCapture unmarshal c now req))) body)"
    and "rr_Body (Request (StartCapture unmarshal c now req)) =
           (if SkipBinary (config c)
               \<and> contentdetect_IsBinary (rr_ContentType (Request (StartCapture unmarshal c now req))) body
            then Text ''[binary content]''
            else parseBody unmarshal body (rr_ContentType (Request (StartCapture unmarshal c now req))))"
  unfolding StartCapture_ContentType
  using assms by (simp_all add: StartCapture_def Let_def)

lemma FinishCapture_body:
  assumes "IncludeBody (config c)" and "resp_Body resp = Some r"
    and "resp_ContentLength resp \<le> MaxBodySize (config c)"
    and "ReadAll_Limit r (MaxBodySize (config c)) = Some body" and "body \<noteq> []"
  shows "rs_Size (Response (snd (FinishCapture unmarshal c now rec0 (Some resp)))) = int (length body)"
    and "rs_IsBinary (Response (snd (FinishCapture unmarshal c now rec0 (Some resp)))) =
           (SkipBinary (config c)
            \<and> contentdetect_IsBinary
                 (rs_ContentType (Response (snd (FinishCapture unmarshal c now rec0 (Some resp))))) body)"
    and "rs_Body (Response (snd (FinishCapture unmarshal c now rec0 (Some resp)))) =
           (if SkipBinary (config c)
               \<and> contentdetect_IsBinary
                    (rs_ContentType (Response (snd (FinishCapture unmarshal c now rec0 (Some resp))))) body
            then Text ''[binary content]''
            else parseBody unmarshal body
                   (rs_ContentType (Response (snd (FinishCapture unmarshal c now rec0 (Some resp))))))"
  unfolding FinishCapture_ContentType
  using assms by (simp_all add: FinishCapture_def Let_def)

text \<open>C2. With \<open>SkipBinary\<close> (and \<open>IncludeBody\<close>) set, for a body that is present,
  non-empty and of known positive content length at most \<open>MaxBodySize\<close>, on which the
  classifier reports binary for the record's content type and the bytes read: the
  record's body is exactly the string \<open>[binary content]\<close>, its \<open>IsBinary\<close> flag is
  set, and \<open>BodySize\<close> (request) or \<open>Size\<close> (response) is the number of bytes read,
  that is the length of the body capped at \<open>MaxBodySize\<close>, which is the content
  length when the body has the length it declares.\<close>

theorem binary_body_skipped:
  assumes "SkipBinary (config c)" and "IncludeBody (config c)"
    and "req_Body req = Some (Reader bs)" and "bs \<noteq> []"
    and "0 < req_ContentLength req" and "req_ContentLength req \<le> MaxBodySize (config c)"
    and "contentdetect_IsBinary (rr_ContentType (Request (StartCapture unmarshal c now req)))
           (take (nat (MaxBodySize (config c))) bs)"
    and "resp_Body resp = Some (Reader bs')" and "bs' \<noteq> []"
    and "0 < resp_ContentLength resp" and "resp_ContentLength resp \<le> MaxBodySize (config c)"
    and "contentdetect_IsBinary
           (rs_ContentType (Response (snd (FinishCapture unmarshal c now' rec0 (Some resp)))))
           (take (nat (MaxBodySize (config c))) bs')"
  shows "rr_Body (Request (StartCapture unmarshal c now req)) = Text ''[binary content]''
       \<and> rr_IsBinary (Request (StartCapture unmarshal c now req))
       \<and> rr_BodySize (Request (StartCapture unmarshal c now req))
           = min (int (length bs)) (MaxBodySize (config c))
       \<and> (int (length bs) = req_ContentLength req \<longrightarrow>
            rr_BodySize (Request (StartCapture unmarshal c now req)) = req_ContentLength req)
       \<and> rs_Body (Response (snd (FinishCapture unmarshal c now' rec0 (Some resp))))
           = Text ''[binary content]''
       \<and> rs_IsBinary (Response (snd (FinishCapture unmarshal c now' rec0 (Some resp))))
       \<and> rs_Size (Response (snd (FinishCapture unmarshal c now' rec0 (Some resp))))
           = min (int (length bs')) (MaxBodySize (config c))
       \<and> (int (length bs') = resp_ContentLength resp \<longrightarrow>
            rs_Size (Response (snd (FinishCapture unmarshal c now' rec0 (Some resp))))
              = resp_ContentLength resp)"
proof -
  let ?m = "MaxBodySize (config c)"
  have pos: "0 < ?m" using assms(5,6) by simp
  have rd: "ReadAll_Limit (Reader bs) ?m = Some (take (nat ?m) bs)"
    by (simp add: ReadAll_Limit_def)
  have ne: "take (nat ?m) bs \<noteq> []" using assms(4) pos by simp
  have len: "int (length (take (nat ?m) bs)) = min (int (length bs)) ?m"
    using pos by (simp add: min_def) linarith
  note rq = StartCapture_body [OF assms(2,3,5,6) rd ne, of unmarshal now]
  have rd': "ReadAll_Limit (Reader bs') ?m = Some (take (nat ?m) bs')"
    by (simp add: ReadAll_Limit_def)
  have ne': "take (nat ?m) bs' \<noteq> []" using assms(9) pos by simp
  have len': "int (length (take (nat ?m) bs')) = min (int (length bs')) ?m"
    using pos by (simp add: min_def) linarith
  note rs = FinishCapture_body [OF assms(2,8,11) rd' ne', of unmarshal now' rec0]
  have a: "rr_Body (Request (StartCapture unmarshal c now req)) = Text ''[binary content]''"
    using rq(3) assms(1,7) by simp
  have b: "rr_IsBinary (Request (StartCapture unmarshal c now req))"
    using rq(2) assms(1,7) by simp
  have d: "rr_BodySize (Request (StartCapture unmarshal c now req)) = min (int (length bs)) ?m"
    using rq(1) len by simp
  have e: "int (length bs) = req_ContentLength req \<longrightarrow>
            rr_BodySize (Request (StartCapture unmarshal c now req)) = req_ContentLength req"
    using d assms(6) by (simp add: min_def)
  have a': "rs_Body (Response (snd (FinishCapture unmarshal c now' rec0 (Some resp))))
           = Text ''[binary content]''"
    using rs(3) assms(1,12) by simp
  have b': "rs_IsBinary (Response (snd (FinishCapture unmarshal c now' rec0 (Some resp))))"
    using rs(2) assms(1,12) by simp
  have d': "rs_Size (Response (snd (FinishCapture unmarshal c now' rec0 (Some resp))))
           = min (int (length bs')) ?m"
    using rs(1) len' by simp
  have e': "int (length bs') = resp_ContentLength resp \<longrightarrow>
            rs_Size (Response (snd (FinishCapture unmarshal c now' rec0 (Some resp))))
              = resp_ContentLength resp"
    using d' assms(11) by (simp add: min_def)
  from a b d e a' b' d' e' show ?thesis by blast
qed

theorem binary_body_skipped_witness:
  "SkipBinary (config default_capturer) \<and> IncludeBody (config default_capturer)
   \<and> req_Body upload_request = Some (Reader png_bytes) \<and> png_bytes \<noteq> []
   \<and> 0 < req_ContentLength upload_request
   \<and> req_ContentLength upload_request \<le> MaxBodySize (config default_capturer)
   \<and> contentdetect_IsBinary
        (rr_ContentType (Request (StartCapture empty_object_decoder default_capturer 0 upload_request)))
        (take (nat (MaxBodySize (config default_capturer))) png_bytes)
   \<and> resp_Body image_response = Some (Reader png_bytes)
   \<and> 0 < resp_ContentLength image_response
   \<and> resp_ContentLength image_response \<le> MaxBodySize (config default_capturer)
   \<and> contentdetect_IsBinary
        (rs_ContentType (Response (snd (FinishCapture empty_object_decoder default_capturer 5000000
           (StartCapture empty_object_decoder default_capturer 0 upload_request)
           (Some image_response)))))
        (take (nat (MaxBodySize (config default_capturer))) png_bytes)
   \<and> rr_Body (Request (StartCapture empty_object_decoder default_capturer 0 upload_request))
        = Text ''[binary content]''
   \<and> rr_IsBinary (Request (StartCapture empty_object_decoder default_capturer 0 upload_request))
   \<and> rr_BodySize (Request (StartCapture empty_object_decoder default_capturer 0 upload_request)) = 8
   \<and> rs_Body (Response (snd (FinishCapture empty_object_decoder default_capturer 5000000
           (StartCapture empty_object_decoder default_capturer 0 upload_request)
           (Some image_response)))) = Text ''[binary content]''
   \<and> rs_Size (Response (snd (FinishCapture empty_object_decoder default_capturer 5000000
           (StartCapture empty_object_decoder default_capturer 0 upload_request)
           (Some image_response)))) = 8"
proof -
  let ?c = "default_capturer"
  let ?rec = "StartCapture empty_object_decoder default_capturer 0 upload_request"
  have h1: "SkipBinary (config ?c)" and h2: "IncludeBody (config ?c)"
    by (simp_all add: default_capturer_def NewCapturer_def DefaultConfig_def)
  have m: "MaxBodySize (config ?c) = 1048576"
    by (simp add: default_capturer_def NewCapturer_def DefaultConfig_def)
  have ih: "IncludeHeaders (config ?c)"
    by (simp add: default_capturer_def NewCapturer_def DefaultConfig_def)
  have h3: "req_Body upload_request = Some (Reader png_bytes)"
    by (simp add: upload_request_def)
  have h4: "png_bytes \<noteq> []" by (simp add: png_bytes_def)
  have h5: "0 < req_ContentLength upload_request"
    and h6: "req_ContentLength upload_request \<le> MaxBodySize (config ?c)"
    unfolding m by (simp_all add: upload_request_def)
  have tk: "take (nat (MaxBodySize (config ?c))) png_bytes = png_bytes"
    unfolding m by (simp add: png_bytes_def)
  have png: "contentdetect_IsBinary ''image/png'' png_bytes" by code_simp
  have ct: "Header_Get (req_Header upload_request) ''Content-Type'' = ''image/png''"
    by code_simp
  have ct': "Header_Get (resp_Header image_response) ''Content-Type'' = ''image/png''"
    by code_simp
  have h7: "contentdetect_IsBinary (rr_ContentType (Request ?rec))
              (take (nat (MaxBodySize (config ?c))) png_bytes)"
    unfolding StartCapture_ContentType tk using ih ct png by (simp add: upload_request_def)
  have h8: "resp_Body image_response = Some (Reader png_bytes)"
    by (simp add: image_response_def)
  have h10: "0 < resp_ContentLength image_response"
    and h11: "resp_ContentLength image_response \<le> MaxBodySize (config ?c)"
    unfolding m by (simp_all add: image_response_def)
  have h12: "contentdetect_IsBinary
        (rs_ContentType (Response (snd (FinishCapture empty_object_decoder ?c 5000000 ?rec
           (Some image_response)))))
        (take (nat (MaxBodySize (config ?c))) png_bytes)"
    unfolding FinishCapture_ContentType tk using ih ct' png by (simp add: image_response_def)
  have l: "min (int (length png_bytes)) (MaxBodySize (config ?c)) = 8"
    unfolding m by (simp add: png_bytes_def)
  from binary_body_skipped [OF h1 h2 h3 h4 h5 h6 h7 h8 h4 h10 h11 h12]
    h1 h2 h3 h4 h5 h6 h7 h8 h10 h11 h12 l
  show ?thesis by simp
qed

subsection \<open>JSON bodies\<close>

lemma contains_iff: "contains s sub = (\<exists>pre post. s = pre @ sub @ post)"
proof
  assume "contains s sub"
  then obtain i where i: "take (length sub) (drop i s) = sub"
    by (auto simp: contains_def list_ex_iff)
  have "s = take i s @ take (length sub) (drop i s) @ drop (length sub) (drop i s)"
    by (simp only: append_take_drop_id)
  with i have "s = take i s @ sub @ drop (length sub) (drop i s)" by simp
  then show "\<exists>pre post. s = pre @ sub @ post" by blast
next
  assume "\<exists>pre post. s = pre @ sub @ post"
  then obtain pre post where s: "s = pre @ sub @ post" by blast
  then have "length pre < Suc (length s) - length sub"
    and "take (length sub) (drop (length pre) s) = sub"
    by simp_all
  then show "contains s sub"
    unfolding contains_def list_ex_iff by (intro bexI [of _ "length pre"]) simp_all
qed

text \<open>C9, the claim as stated fails: a body of a space followed by \<open>{}\<close> under
  \<open>text/plain\<close> is not handed to the JSON decoder, and neither is the body \<open>42\<close>
  under \<open>text/json\<close>.\<close>

theorem parseBody_no_json_attempt:
  "\<not> parseBody_tries_json [0x20, 0x7B, 0x7D] ''text/plain''
   \<and> \<not> parseBody_tries_json [0x34, 0x32] ''text/json''"
  by (simp add: parseBody_tries_json_def isJSONContentType_def contains_def)

text \<open>C9, amended. \<open>parseBody\<close> hands a body to the JSON decoder whenever the content
  type is at least 16 bytes long and contains \<open>json\<close>, and whenever the first byte of
  the body is \<open>{\<close> or \<open>[\<close>; it does not when the content type does not contain
  \<open>json\<close> and the first byte is neither. When the decoder is tried and succeeds the
  body is the decoded value; otherwise it is the body as a string. A body that the
  capturer reads and does not replace by the binary marker is the result of
  \<open>parseBody\<close>.\<close>

theorem parseBody_json_attempt:
  "(16 \<le> length ct \<and> (\<exists>pre post. ct = pre @ ''json'' @ post) \<longrightarrow> parseBody_tries_json body ct)
   \<and> (body \<noteq> [] \<and> (hd body = 0x7B \<or> hd body = 0x5B) \<longrightarrow> parseBody_tries_json body ct)
   \<and> (\<not> (\<exists>pre post. ct = pre @ ''json'' @ post)
        \<and> \<not> (body \<noteq> [] \<and> (hd body = 0x7B \<or> hd body = 0x5B))
       \<longrightarrow> \<not> parseBody_tries_json body ct)
   \<and> (parseBody_tries_json body ct \<and> unmarshal body = Some v
       \<longrightarrow> parseBody unmarshal body ct = Parsed v)
   \<and> (\<not> parseBody_tries_json body ct \<or> unmarshal body = None
       \<longrightarrow> parseBody unmarshal body ct = Text (string_of body))
   \<and> (IncludeBody (config c) \<and> req_Body req = Some (Reader bs) \<and> bs \<noteq> []
        \<and> 0 < req_ContentLength req \<and> req_ContentLength req \<le> MaxBodySize (config c)
        \<and> \<not> rr_IsBinary (Request (StartCapture unmarshal c now req))
       \<longrightarrow> rr_Body (Request (StartCapture unmarshal c now req))
            = parseBody unmarshal (take (nat (MaxBodySize (config c))) bs)
                (rr_ContentType (Request (StartCapture unmarshal c now req))))
   \<and> (IncludeBody (config c) \<and> resp_Body resp = Some (Reader bs') \<and> bs' \<noteq> []
        \<and> 0 < resp_ContentLength resp \<and> resp_ContentLength resp \<le> MaxBodySize (config c)
        \<and> \<not> rs_IsBinary (Response (snd (FinishCapture unmarshal c now' rec0 (Some resp))))
       \<longrightarrow> rs_Body (Response (snd (FinishCapture unmarshal c now' rec0 (Some resp))))
            = parseBody unmarshal (take (nat (MaxBodySize (config c))) bs')
                (rs_ContentType (Response (snd (FinishCapture unmarshal c now' rec0 (Some resp))))))"
proof -
  have a: "16 \<le> length ct \<and> (\<exists>pre post. ct = pre @ ''json'' @ post) \<longrightarrow> parseBody_tries_json body ct"
    by (simp add: parseBody_tries_json_def isJSONContentType_def contains_iff)
  have b: "body \<noteq> [] \<and> (hd body = 0x7B \<or> hd body = 0x5B) \<longrightarrow> parseBody_tries_json body ct"
    by (simp add: parseBody_tries_json_def)
  have pre: "take 16 ct = ''application/json'' \<Longrightarrow> \<exists>pre post. ct = pre @ ''json'' @ post"
  proof -
    assume t: "take 16 ct = ''application/json''"
    have "ct = take 16 ct @ drop 16 ct" by simp
    with t have "ct = ''application/'' @ ''json'' @ drop 16 ct" by simp
    then show ?thesis by blast
  qed
  have d: "\<not> (\<exists>pre post. ct = pre @ ''json'' @ post)
        \<and> \<not> (body \<noteq> [] \<and> (hd body = 0x7B \<or> hd body = 0x5B))
       \<longrightarrow> \<not> parseBody_tries_json body ct"
    using pre by (auto simp: parseBody_tries_json_def isJSONContentType_def contains_iff)
  have e: "parseBody_tries_json body ct \<and> unmarshal body = Some v
       \<longrightarrow> parseBody unmarshal body ct = Parsed v"
    by (simp add: parseBody_def)
  have f: "\<not> parseBody_tries_json body ct \<or> unmarshal body = None
       \<longrightarrow> parseBody unmarshal body ct = Text (string_of body)"
    by (auto simp: parseBody_def)
  have g: "rr_Body (Request (StartCapture unmarshal c now req))
            = parseBody unmarshal (take (nat (MaxBodySize (config c))) bs)
                (rr_ContentType (Request (StartCapture unmarshal c now req)))"
    if "IncludeBody (config c)" "req_Body req = Some (Reader bs)" "bs \<noteq> []"
      "0 < req_ContentLength req" "req_ContentLength req \<le> MaxBodySize (config c)"
      "\<not> rr_IsBinary (Request (StartCapture unmarshal c now req))"
  proof -
    have rd: "ReadAll_Limit (Reader bs) (MaxBodySize (config c))
                = Some (take (nat (MaxBodySize (config c))) bs)"
      by (simp add: ReadAll_Limit_def)
    have ne: "take (nat (MaxBodySize (config c))) bs \<noteq> []" using that(3,4,5) by simp
    note r = StartCapture_body [OF that(1,2,4,5) rd ne, of unmarshal now]
    from r(2) that(6) r(3) show ?thesis by auto
  qed
  have h: "rs_Body (Response (snd (FinishCapture unmarshal c now' rec0 (Some resp))))
            = parseBody unmarshal (take (nat (MaxBodySize (config c))) bs')
                (rs_ContentType (Response (snd (FinishCapture unmarshal c now' rec0 (Some resp)))))"
    if "IncludeBody (config c)" "resp_Body resp = Some (Reader bs')" "bs' \<noteq> []"
      "0 < resp_ContentLength resp" "resp_ContentLength resp \<le> MaxBodySize (config c)"
      "\<not> rs_IsBinary (Response (snd (FinishCapture unmarshal c now' rec0 (Some resp))))"
  proof -
    have rd: "ReadAll_Limit (Reader bs') (MaxBodySize (config c))
                = Some (take (nat (MaxBodySize (config c))) bs')"
      by (simp add: ReadAll_Limit_def)
    have ne: "take (nat (MaxBodySize (config c))) bs' \<noteq> []" using that(3,4,5) by simp
    note r = FinishCapture_body [OF that(1,2,5) rd ne, of unmarshal now' rec0]
    from r(2) that(6) r(3) show ?thesis by auto
  qed
  from a b d e f g h show ?thesis by blast
qed

theorem parseBody_json_attempt_witness:
  "16 \<le> length ''application/json''
   \<and> (\<exists>pre post. ''application/json'' = pre @ ''json'' @ post)
   \<and> parseBody_tries_json [0x7B, 0x7D] ''application/json''
   \<and> empty_object_decoder [0x7B, 0x7D] = Some ()
   \<and> parseBody empty_object_decoder [0x7B, 0x7D] ''application/json'' = Parsed ()
   \<and> \<not> (\<exists>pre post. ''text/plain'' = pre @ ''json'' @ post)
   \<and> \<not> parseBody_tries_json [0x34, 0x32] ''text/plain''
   \<and> parseBody empty_object_decoder [0x34, 0x32] ''text/plain'' = Text ''42''
   \<and> IncludeBody (config default_capturer)
   \<and> req_Body json_request = Some (Reader [0x7B, 0x7D])
   \<and> 0 < req_ContentLength json_request
   \<and> req_ContentLength json_request \<le> MaxBodySize (config default_capturer)
   \<and> \<not> rr_IsBinary (Request (StartCapture empty_object_decoder default_capturer 0 json_request))
   \<and> rr_Body (Request (StartCapture empty_object_decoder default_capturer 0 json_request))
       = Parsed ()
   \<and> resp_Body json_response = Some (Reader [0x7B, 0x7D])
   \<and> 0 < resp_ContentLength json_response
   \<and> resp_ContentLength json_response \<le> MaxBodySize (config default_capturer)
   \<and> \<not> rs_IsBinary (Response (snd (FinishCapture empty_object_decoder default_capturer 5000000
           (StartCapture empty_object_decoder default_capturer 0 json_request)
           (Some json_response))))
   \<and> rs_Body (Response (snd (FinishCapture empty_object_decoder default_capturer 5000000
           (StartCapture empty_object_decoder default_capturer 0 json_request)
           (Some json_response)))) = Parsed ()"
proof -
  let ?c = "default_capturer"
  let ?rec = "StartCapture empty_object_decoder default_capturer 0 json_request"
  let ?fin = "snd (FinishCapture empty_object_decoder default_capturer 5000000 ?rec
                (Some json_response))"
  have h1: "16 \<le> length ''application/json''" by simp
  have "''application/json'' = ''application/'' @ ''json'' @ []" by simp
  then have h2: "\<exists>pre post. ''application/json'' = pre @ ''json'' @ post" by blast
  have h3: "empty_object_decoder [0x7B, 0x7D] = Some ()"
    by (simp add: empty_object_decoder_def)
  have "\<not> contains ''text/plain'' ''json''" by (simp add: contains_def upt_rec)
  then have h4: "\<not> (\<exists>pre post. ''text/plain'' = pre @ ''json'' @ post)"
    by (simp add: contains_iff)
  have h5: "\<not> ([0x34, 0x32 :: byte] \<noteq> []
               \<and> (hd [0x34, 0x32 :: byte] = 0x7B \<or> hd [0x34, 0x32 :: byte] = 0x5B))"
    by simp
  have s: "string_of [0x34, 0x32] = ''42''" by code_simp
  have m: "MaxBodySize (config ?c) = 1048576" and ib: "IncludeBody (config ?c)"
    and ih: "IncludeHeaders (config ?c)"
    by (simp_all add: default_capturer_def NewCapturer_def DefaultConfig_def)
  have q1: "req_Body json_request = Some (Reader [0x7B, 0x7D])"
    and q2: "0 < req_ContentLength json_request"
    and q3: "req_ContentLength json_request \<le> MaxBodySize (config ?c)"
    unfolding m by (simp_all add: json_request_def)
  have p1: "resp_Body json_response = Some (Reader [0x7B, 0x7D])"
    and p2: "0 < resp_ContentLength json_response"
    and p3: "resp_ContentLength json_response \<le> MaxBodySize (config ?c)"
    unfolding m by (simp_all add: json_response_def)
  have ne: "[0x7B, 0x7D :: byte] \<noteq> []" by simp
  have tk: "take (nat (MaxBodySize (config ?c))) [0x7B, 0x7D :: byte] = [0x7B, 0x7D]"
    unfolding m by simp
  have rd: "ReadAll_Limit (Reader [0x7B, 0x7D]) (MaxBodySize (config ?c)) = Some [0x7B, 0x7D]"
    by (simp add: ReadAll_Limit_def tk)
  have ct: "rr_ContentType (Request ?rec) = ''application/json''"
    unfolding StartCapture_ContentType using ih by (simp add: json_request_def Header_Get_def)
  have ct': "rs_ContentType (Response ?fin) = ''application/json''"
    unfolding FinishCapture_ContentType using ih by (simp add: json_response_def Header_Get_def)
  have nb: "\<not> contentdetect_IsBinary ''application/json'' [0x7B, 0x7D]" by code_simp
  have q4: "\<not> rr_IsBinary (Request ?rec)"
    using StartCapture_body(2) [OF ib q1 q2 q3 rd ne, of empty_object_decoder 0] ct nb by simp
  have p4: "\<not> rs_IsBinary (Response ?fin)"
    using FinishCapture_body(2) [OF ib p1 p3 rd ne, of empty_object_decoder 5000000 ?rec] ct' nb
    by simp
  note t1 = parseBody_json_attempt [of "''application/json''" "[0x7B, 0x7D]" empty_object_decoder
      "()" ?c json_request "[0x7B, 0x7D]" 0 json_response "[0x7B, 0x7D]" 5000000 ?rec]
  note t2 = parseBody_json_attempt [of "''text/plain''" "[0x34, 0x32]" empty_object_decoder
      "()" ?c json_request "[0x7B, 0x7D]" 0 json_response "[0x7B, 0x7D]" 5000000 ?rec]
  from t1 h1 h2 have a: "parseBody_tries_json [0x7B, 0x7D] ''application/json''" by blast
  from t1 a h3 have b: "parseBody empty_object_decoder [0x7B, 0x7D] ''application/json'' = Parsed ()"
    by blast
  from t2 h4 h5 have c: "\<not> parseBody_tries_json [0x34, 0x32] ''text/plain''" by blast
  from t2 c have "parseBody empty_object_decoder [0x34, 0x32] ''text/plain''
                    = Text (string_of [0x34, 0x32])" by blast
  with s have d: "parseBody empty_object_decoder [0x34, 0x32] ''text/plain'' = Text ''42''"
    by simp
  from t1 ib q1 ne q2 q3 q4
  have "rr_Body (Request ?rec)
          = parseBody empty_object_decoder (take (nat (MaxBodySize (config ?c))) [0x7B, 0x7D])
              (rr_ContentType (Request ?rec))"
    by blast
  with b have e: "rr_Body (Request ?rec) = Parsed ()" unfolding tk ct by simp
  from t1 ib p1 ne p2 p3 p4
  have "rs_Body (Response ?fin)
          = parseBody empty_object_decoder (take (nat (MaxBodySize (config ?c))) [0x7B, 0x7D])
              (rs_ContentType (Response ?fin))"
    by blast
  with b have f: "rs_Body (Response ?fin) = Parsed ()" unfolding tk ct' by simp
  from h1 h2 a h3 b h4 c d ib q1 q2 q3 q4 e p1 p2 p3 p4 f show ?thesis by blast
qed

subsection \<open>The async wrapper\<close>

lemma flush_stopped: "stopped (flush w i) = stopped w"
  by (simp add: flush_def Let_def)

lemma worker_receive_stopped: "stopped (worker_receive w i) = stopped w"
  by (simp add: worker_receive_def Let_def flush_stopped split: list.splits)

lemma worker_drain_stopped: "stopped (worker_drain w i) = stopped w"
proof (induction w i rule: worker_drain.induct)
  case (1 w i)
  show ?case
  proof (cases "queue w = []")
    case True
    then show ?thesis by (simp add: worker_drain.simps [of w i] flush_stopped)
  next
    case False
    with "1.IH" show ?thesis by (simp add: worker_drain.simps [of w i] worker_receive_stopped)
  qed
qed

lemma workers_drain_stopped: "stopped (foldl worker_drain w is) = stopped w"
  by (induction "is" arbitrary: w) (simp_all add: worker_drain_stopped)

lemma Close_stopped: "stopped (snd (Close w))"
  by (simp add: Close_def Let_def workers_drain_stopped)

lemma flush_stopChan: "stopChan_closed (flush w i) = stopChan_closed w"
  by (simp add: flush_def Let_def)

lemma worker_receive_stopChan: "stopChan_closed (worker_receive w i) = stopChan_closed w"
  by (simp add: worker_receive_def Let_def flush_stopChan split: list.splits)

lemma worker_drain_stopChan: "stopChan_closed (worker_drain w i) = stopChan_closed w"
proof (induction w i rule: worker_drain.induct)
  case (1 w i)
  show ?case
  proof (cases "queue w = []")
    case True
    then show ?thesis by (simp add: worker_drain.simps [of w i] flush_stopChan)
  next
    case False
    with "1.IH" show ?thesis by (simp add: worker_drain.simps [of w i] worker_receive_stopChan)
  qed
qed

lemma workers_drain_stopChan: "stopChan_closed (foldl worker_drain w is) = stopChan_closed w"
  by (induction "is" arbitrary: w) (simp_all add: worker_drain_stopChan)

lemma Close_stopChan: "stopChan_closed (snd (Close w))"
  by (simp add: Close_def Let_def workers_drain_stopChan)

lemma Close_twice: "fst (Close (snd (Close w))) = Inl CloseOfClosedChannel"
  using Close_stopChan [of w] by (simp add: Close_def [of "snd (Close w)"] Let_def)

lemma Store_stopped: "stopped w \<Longrightarrow> Store w rec = (None, w)"
  by (simp add: Store_def)

lemma StoreBatch_stopped: "stopped w \<Longrightarrow> StoreBatch w recs = (None, w)"
  by (induction recs) (simp_all add: Store_stopped)

lemma Store_room:
  "\<not> stopped w \<Longrightarrow> length (queue w) < queue_cap w \<Longrightarrow>
     Store w rec = (None, w\<lparr>queue := queue w @ [rec], queue_depth_gauge := length (queue w) + 1\<rparr>)"
  by (simp add: Store_def)

lemma Store_full:
  "\<not> stopped w \<Longrightarrow> queue_cap w \<le> length (queue w) \<Longrightarrow>
     Store w rec = (None, w\<lparr>store_errors := store_errors w + 1\<rparr>)"
  by (simp add: Store_def)

lemma StoreBatch_room:
  "\<not> stopped w \<Longrightarrow> length (queue w) + length recs \<le> queue_cap w \<Longrightarrow>
     fst (StoreBatch w recs) = None
     \<and> queue (snd (StoreBatch w recs)) = queue w @ recs
     \<and> store_errors (snd (StoreBatch w recs)) = store_errors w
     \<and> queue_cap (snd (StoreBatch w recs)) = queue_cap w
     \<and> \<not> stopped (snd (StoreBatch w recs))"
proof (induction recs arbitrary: w)
  case Nil
  then show ?case by simp
next
  case (Cons r recs)
  let ?w' = "w\<lparr>queue := queue w @ [r], queue_depth_gauge := length (queue w) + 1\<rparr>"
  from Cons.prems have s: "Store w r = (None, ?w')" by (simp add: Store_room)
  from Cons.prems have "\<not> stopped ?w'" and "length (queue ?w') + length recs \<le> queue_cap ?w'"
    by simp_all
  from Cons.IH [OF this] s show ?case by simp
qed

lemma NewAsyncTrafficStore_fresh:
  "queue (NewAsyncTrafficStore accepts ce cfg) = []"
  "\<not> stopped (NewAsyncTrafficStore accepts ce cfg)"
  "store_errors (NewAsyncTrafficStore accepts ce cfg) = 0"
  "queue_cap (NewAsyncTrafficStore accepts ce (Some c)) =
     nat (if QueueSize c \<le> 0 then 10000 else QueueSize c)"
  by (simp_all add: NewAsyncTrafficStore_def Let_def split: option.splits)

text \<open>C3, the claim as stated fails: after \<open>Close\<close>, \<open>Store\<close> returns \<open>nil\<close>, not an
  error, and a second \<open>Close\<close> panics on closing the closed \<open>stopChan\<close>.\<close>

theorem Store_after_Close_returns_nil:
  "fst (Store (snd (Close small_wrapper)) 7) = None
   \<and> fst (Close (snd (Close small_wrapper))) = Inl CloseOfClosedChannel"
proof -
  have a: "fst (Store (snd (Close small_wrapper)) 7) = None"
    by (simp add: Store_stopped [OF Close_stopped])
  have b: "fst (Close (snd (Close small_wrapper))) = Inl CloseOfClosedChannel"
    by (rule Close_twice)
  from a b show ?thesis by blast
qed

text \<open>C3, amended. After \<open>Close\<close> the wrapper is stopped, and every later \<open>Store\<close>
  and \<open>StoreBatch\<close> returns \<open>nil\<close> and leaves the wrapper as it is: the record is
  neither queued nor counted.\<close>

theorem Store_after_Close_discards:
  "stopped (snd (Close w))
   \<and> Store (snd (Close w)) rec = (None, snd (Close w))
   \<and> StoreBatch (snd (Close w)) recs = (None, snd (Close w))"
  by (simp add: Close_stopped Store_stopped StoreBatch_stopped)

text \<open>C4. On a wrapper that is not stopped and whose queue is full, \<open>Store\<close> returns
  \<open>nil\<close>, leaves the queue as it is and counts one store error, and changes nothing
  else. So on a fresh wrapper of queue size \<open>Q\<close>, with no worker taking records,
  the first \<open>Q\<close> calls fill the queue without an error and call \<open>Q + 1\<close> counts
  the first one.\<close>

theorem Store_full_queue_drops:
  "(\<not> stopped w \<and> length (queue w) = queue_cap w \<longrightarrow>
      Store w rec = (None, w\<lparr>store_errors := store_errors w + 1\<rparr>))
   \<and> (length recs = queue_cap (NewAsyncTrafficStore accepts ce cfg) \<longrightarrow>
        fst (StoreBatch (NewAsyncTrafficStore accepts ce cfg) recs) = None
        \<and> queue (snd (StoreBatch (NewAsyncTrafficStore accepts ce cfg) recs)) = recs
        \<and> store_errors (snd (StoreBatch (NewAsyncTrafficStore accepts ce cfg) recs)) = 0
        \<and> Store (snd (StoreBatch (NewAsyncTrafficStore accepts ce cfg) recs)) rec =
            (None, (snd (StoreBatch (NewAsyncTrafficStore accepts ce cfg) recs))\<lparr>store_errors := 1\<rparr>))"
proof -
  let ?w0 = "NewAsyncTrafficStore accepts ce cfg"
  have a: "\<not> stopped w \<and> length (queue w) = queue_cap w \<longrightarrow>
      Store w rec = (None, w\<lparr>store_errors := store_errors w + 1\<rparr>)"
    by (simp add: Store_full)
  have b: "fst (StoreBatch ?w0 recs) = None
        \<and> queue (snd (StoreBatch ?w0 recs)) = recs
        \<and> store_errors (snd (StoreBatch ?w0 recs)) = 0
        \<and> Store (snd (StoreBatch ?w0 recs)) rec =
            (None, (snd (StoreBatch ?w0 recs))\<lparr>store_errors := 1\<rparr>)"
    if len: "length recs = queue_cap ?w0"
  proof -
    have "\<not> stopped ?w0" and "length (queue ?w0) + length recs \<le> queue_cap ?w0"
      using len by (simp_all add: NewAsyncTrafficStore_fresh)
    from StoreBatch_room [OF this]
    have r: "fst (StoreBatch ?w0 recs) = None"
      "queue (snd (StoreBatch ?w0 recs)) = recs"
      "store_errors (snd (StoreBatch ?w0 recs)) = 0"
      "queue_cap (snd (StoreBatch ?w0 recs)) = queue_cap ?w0"
      "\<not> stopped (snd (StoreBatch ?w0 recs))"
      by (simp_all add: NewAsyncTrafficStore_fresh)
    from r(2,4) len have "queue_cap (snd (StoreBatch ?w0 recs)) \<le> length (queue (snd (StoreBatch ?w0 recs)))"
      by simp
    from Store_full [OF r(5) this, of rec] r(3)
    have "Store (snd (StoreBatch ?w0 recs)) rec =
            (None, (snd (StoreBatch ?w0 recs))\<lparr>store_errors := 1\<rparr>)"
      by simp
    with r show ?thesis by blast
  qed
  from a b show ?thesis by blast
qed

theorem Store_full_queue_drops_witness:
  "length [1, 2 :: nat] = queue_cap small_wrapper
   \<and> \<not> stopped (snd (StoreBatch small_wrapper [1, 2]))
   \<and> length (queue (snd (StoreBatch small_wrapper [1, 2])))
       = queue_cap (snd (StoreBatch small_wrapper [1, 2]))
   \<and> queue (snd (StoreBatch small_wrapper [1, 2])) = [1, 2]
   \<and> store_errors (snd (StoreBatch small_wrapper [1, 2])) = 0
   \<and> fst (Store (snd (StoreBatch small_wrapper [1, 2])) 3) = None
   \<and> queue (snd (Store (snd (StoreBatch small_wrapper [1, 2])) 3)) = [1, 2]
   \<and> store_errors (snd (Store (snd (StoreBatch small_wrapper [1, 2])) 3)) = 1"
proof -
  let ?w = "snd (StoreBatch small_wrapper [1, 2])"
  have cap: "queue_cap small_wrapper = 2"
    by (simp add: small_wrapper_def NewAsyncTrafficStore_fresh)
  then have h: "length [1, 2 :: nat] = queue_cap small_wrapper" by simp
  have "\<not> stopped small_wrapper" and "length (queue small_wrapper) + length [1, 2 :: nat] \<le> queue_cap small_wrapper"
    using cap by (simp_all add: small_wrapper_def NewAsyncTrafficStore_fresh)
  from StoreBatch_room [OF this] cap
  have h1: "\<not> stopped ?w" and h2: "length (queue ?w) = queue_cap ?w"
    by (simp_all add: small_wrapper_def NewAsyncTrafficStore_fresh)
  from Store_full_queue_drops [of ?w 3] h1 h2
  have a: "Store ?w 3 = (None, ?w\<lparr>store_errors := store_errors ?w + 1\<rparr>)" by blast
  from Store_full_queue_drops [of _ _ "[1, 2]" accept_all None
      "Some \<lparr>QueueSize = 2, BatchSize = 100, FlushPeriod = 0, Workers = 1\<rparr>"] h
  have b: "queue ?w = [1, 2]" "store_errors ?w = 0"
    unfolding small_wrapper_def by blast+
  from a b h h1 h2 show ?thesis by simp
qed

subsection \<open>The filter\<close>

lemma wildcard_loop_step:
  "wildcard_loop result [c] = result @ wildcard_char c"
  by (auto simp: wildcard_char_def regexp_metachars_def)

lemma wildcard_loop_concat:
  "wildcard_loop result pattern = result @ concat (map wildcard_char pattern)"
proof (induction pattern arbitrary: result)
  case Nil
  then show ?case by simp
next
  case (Cons c pattern)
  have "wildcard_loop result (c # pattern) = wildcard_loop (wildcard_loop result [c]) pattern"
    by simp
  also have "\<dots> = wildcard_loop (result @ wildcard_char c) pattern"
    by (simp only: wildcard_loop_step)
  also have "\<dots> = (result @ wildcard_char c) @ concat (map wildcard_char pattern)"
    by (rule Cons.IH)
  finally show ?case by simp
qed

lemma compile_loop_all:
  "compile_loop lib result patterns =
     (if list_all (\<lambda>p. Compile_ok lib (wildcard_expr p)) patterns
      then Some (result @ map wildcard_expr patterns) else None)"
  by (induction patterns arbitrary: result) (simp_all add: wildcardToRegexp_def)

lemma compilePatterns_all:
  "compilePatterns lib patterns =
     (if list_all (\<lambda>p. Compile_ok lib (wildcard_expr p)) patterns
      then Some (map wildcard_expr patterns) else None)"
  by (simp add: compilePatterns_def compile_loop_all)

lemma Compile_ok_patterns:
  assumes "fst (Compile lib f)"
  shows "includeHostPatterns (snd (Compile lib f)) = map wildcard_expr (IncludeHosts f)"
    and "excludeHostPatterns (snd (Compile lib f)) = map wildcard_expr (ExcludeHosts f)"
    and "includePathPatterns (snd (Compile lib f)) = map wildcard_expr (IncludePaths f)"
    and "excludePathPatterns (snd (Compile lib f)) = map wildcard_expr (ExcludePaths f)"
    and "IncludeMethods (snd (Compile lib f)) = IncludeMethods f"
    and "ExcludeMethods (snd (Compile lib f)) = ExcludeMethods f"
  using assms
  by (auto simp: Compile_def Let_def compilePatterns_all patterns_or_nil_def split: if_splits)

lemma Compile_succeeds_iff:
  "fst (Compile lib f) =
     list_all (\<lambda>p. Compile_ok lib (wildcard_expr p))
       (IncludeHosts f @ ExcludeHosts f @ IncludePaths f @ ExcludePaths f)"
  by (auto simp: Compile_def Let_def compilePatterns_all patterns_or_nil_def split: if_splits)

lemma match_patterns_iff:
  "match_patterns lib (map wildcard_expr incl) (map wildcard_expr excl) input =
     ((incl = [] \<or> (\<exists>p \<in> set incl. MatchString lib (wildcard_expr p) input))
      \<and> (\<forall>p \<in> set excl. \<not> MatchString lib (wildcard_expr p) input))"
  by (auto simp: match_patterns_def list_ex_iff)

lemma upper_byte_not_lower:
  "\<not> ((97::nat) \<le> of_char (upper_byte c) \<and> of_char (upper_byte c) \<le> (122::nat))"
  by (auto simp: upper_byte_def)

lemma upper_byte_idem: "upper_byte (upper_byte c) = upper_byte c"
  using upper_byte_not_lower [of c] by (auto simp: upper_byte_def [of "upper_byte c"])

lemma upper_lower_byte: "upper_byte (lower_byte c) = upper_byte c"
  by (auto simp: upper_byte_def lower_byte_def)

lemma ToUpper_idem: "strings_ToUpper (strings_ToUpper s) = strings_ToUpper s"
  by (simp add: strings_ToUpper_def upper_byte_idem)

lemma ToUpper_ToLower: "strings_ToUpper (strings_ToLower s) = strings_ToUpper s"
  by (simp add: strings_ToUpper_def strings_ToLower_def upper_lower_byte)

lemma matchMethod_iff:
  "matchMethod f m =
     ((IncludeMethods f = [] \<or> (\<exists>p \<in> set (IncludeMethods f). strings_ToUpper p = strings_ToUpper m))
      \<and> (\<forall>p \<in> set (ExcludeMethods f). strings_ToUpper p \<noteq> strings_ToUpper m))"
  by (auto simp: matchMethod_def Let_def list_ex_iff)

text \<open>C8. \<open>wildcardToRegexp\<close> builds \<open>^\<close>, the translation of each pattern character
  and \<open>$\<close>: \<open>?\<close> becomes \<open>.\<close>, \<open>*\<close> becomes \<open>.*\<close>, every other
  metacharacter of the expression syntax is escaped, any other character is kept. On
  a filter that compiled, \<open>matchHost\<close> and \<open>matchPath\<close> accept an input exactly when
  the include list is empty or one of its patterns matches, and no exclude pattern
  matches; so an empty include list lets every input through to the excludes, and a
  match of an exclude rejects whatever the includes say. \<open>matchMethod\<close> does the same
  with equality of the upper-cased names, so it does not depend on the case of the
  method.\<close>

theorem filter_laws:
  "wildcard_expr pattern = ''^'' @ concat (map wildcard_char pattern) @ ''$''
   \<and> wildcard_expr ''?'' = ''^.$''
   \<and> wildcard_expr ''*'' = ''^.*$''
   \<and> (c \<in> regexp_metachars \<and> c \<noteq> CHR ''*'' \<and> c \<noteq> CHR ''?''
        \<longrightarrow> wildcard_expr [c] = [CHR ''^'', CHR 0x5C, c, CHR ''$''])
   \<and> (c \<notin> regexp_metachars \<longrightarrow> wildcard_expr [c] = [CHR ''^'', c, CHR ''$''])
   \<and> (fst (Compile lib f) \<longrightarrow>
        Filter_matchHost lib (snd (Compile lib f)) host =
          ((IncludeHosts f = []
            \<or> (\<exists>p \<in> set (IncludeHosts f). MatchString lib (wildcard_expr p) host))
           \<and> (\<forall>p \<in> set (ExcludeHosts f). \<not> MatchString lib (wildcard_expr p) host))
        \<and> matchPath lib (snd (Compile lib f)) path =
          ((IncludePaths f = []
            \<or> (\<exists>p \<in> set (IncludePaths f). MatchString lib (wildcard_expr p) path))
           \<and> (\<forall>p \<in> set (ExcludePaths f). \<not> MatchString lib (wildcard_expr p) path)))
   \<and> matchMethod f method =
        ((IncludeMethods f = []
          \<or> (\<exists>p \<in> set (IncludeMethods f). strings_ToUpper p = strings_ToUpper method))
         \<and> (\<forall>p \<in> set (ExcludeMethods f). strings_ToUpper p \<noteq> strings_ToUpper method))
   \<and> matchMethod f (strings_ToLower method) = matchMethod f method
   \<and> matchMethod f (strings_ToUpper method) = matchMethod f method"
proof -
  have a: "wildcard_expr pattern = ''^'' @ concat (map wildcard_char pattern) @ ''$''"
    by (simp add: wildcard_expr_def wildcard_loop_concat)
  have b: "wildcard_expr ''?'' = ''^.$''" and b': "wildcard_expr ''*'' = ''^.*$''"
    by (simp_all add: wildcard_expr_def)
  have d: "c \<in> regexp_metachars \<and> c \<noteq> CHR ''*'' \<and> c \<noteq> CHR ''?''
        \<longrightarrow> wildcard_expr [c] = [CHR ''^'', CHR 0x5C, c, CHR ''$'']"
    by (simp add: wildcard_expr_def wildcard_loop_concat wildcard_char_def)
  have e: "c \<notin> regexp_metachars \<longrightarrow> wildcard_expr [c] = [CHR ''^'', c, CHR ''$'']"
    by (auto simp: wildcard_expr_def wildcard_loop_concat wildcard_char_def regexp_metachars_def)
  have g: "Filter_matchHost lib (snd (Compile lib f)) host =
          ((IncludeHosts f = []
            \<or> (\<exists>p \<in> set (IncludeHosts f). MatchString lib (wildcard_expr p) host))
           \<and> (\<forall>p \<in> set (ExcludeHosts f). \<not> MatchString lib (wildcard_expr p) host))
        \<and> matchPath lib (snd (Compile lib f)) path =
          ((IncludePaths f = []
            \<or> (\<exists>p \<in> set (IncludePaths f). MatchString lib (wildcard_expr p) path))
           \<and> (\<forall>p \<in> set (ExcludePaths f). \<not> MatchString lib (wildcard_expr p) path))"
    if ok: "fst (Compile lib f)"
    unfolding Filter_matchHost_def matchPath_def Compile_ok_patterns [OF ok] match_patterns_iff
    by simp
  have h: "matchMethod f method =
        ((IncludeMethods f = []
          \<or> (\<exists>p \<in> set (IncludeMethods f). strings_ToUpper p = strings_ToUpper method))
         \<and> (\<forall>p \<in> set (ExcludeMethods f). strings_ToUpper p \<noteq> strings_ToUpper method))"
    by (rule matchMethod_iff)
  have i: "matchMethod f (strings_ToLower method) = matchMethod f method"
    by (simp add: matchMethod_iff ToUpper_ToLower)
  have j: "matchMethod f (strings_ToUpper method) = matchMethod f method"
    by (simp add: matchMethod_iff ToUpper_idem)
  from a b b' d e g h i j show ?thesis by blast
qed

theorem filter_laws_witness:
  "CHR ''.'' \<in> regexp_metachars
   \<and> wildcard_expr ''.'' = [CHR ''^'', CHR 0x5C, CHR ''.'', CHR ''$'']
   \<and> CHR ''a'' \<notin> regexp_metachars
   \<and> wildcard_expr ''a'' = ''^a$''
   \<and> fst (Compile reference_regexp api_filter)
   \<and> matchPath reference_regexp (snd (Compile reference_regexp api_filter)) ''/api/users''
   \<and> \<not> matchPath reference_regexp (snd (Compile reference_regexp api_filter)) ''/api/app.js''
   \<and> \<not> matchPath reference_regexp (snd (Compile reference_regexp api_filter)) ''/health''
   \<and> Filter_matchHost reference_regexp (snd (Compile reference_regexp api_filter)) ''example.com''
   \<and> matchMethod (NewFilter\<lparr>IncludeMethods := [''GET'']\<rparr>) ''get''"
proof -
  have m1: "CHR ''.'' \<in> regexp_metachars" and m2: "CHR ''a'' \<notin> regexp_metachars"
    by (simp_all add: regexp_metachars_def)
  have ok: "fst (Compile reference_regexp api_filter)"
    by (simp add: Compile_succeeds_iff reference_regexp_def list_all_iff)
  have f: "IncludePaths api_filter = [''/api/*'']" "ExcludePaths api_filter = [''*.js'']"
    "IncludeHosts api_filter = []" "ExcludeHosts api_filter = []"
    by (simp_all add: api_filter_def NewFilter_def)
  have e1: "MatchString reference_regexp (wildcard_expr ''/api/*'') ''/api/users''" by code_simp
  have e2: "\<not> MatchString reference_regexp (wildcard_expr ''*.js'') ''/api/users''" by code_simp
  have e3: "MatchString reference_regexp (wildcard_expr ''*.js'') ''/api/app.js''" by code_simp
  have e4: "\<not> MatchString reference_regexp (wildcard_expr ''/api/*'') ''/health''" by code_simp
  have u: "strings_ToUpper ''get'' = strings_ToUpper ''GET''" by code_simp
  have n: "CHR ''.'' \<noteq> CHR ''*''" "CHR ''.'' \<noteq> CHR ''?''" by simp_all
  note t1 = filter_laws [of "''.''" "CHR ''.''" reference_regexp api_filter "''example.com''"
      "''/api/users''" "''get''"]
  note t2 = filter_laws [of "''a''" "CHR ''a''" reference_regexp api_filter "''example.com''"
      "''/api/app.js''" "''get''"]
  note t3 = filter_laws [of "''a''" "CHR ''a''" reference_regexp api_filter "''example.com''"
      "''/health''" "''get''"]
  note t4 = filter_laws [of "''a''" "CHR ''a''" reference_regexp
      "NewFilter\<lparr>IncludeMethods := [''GET'']\<rparr>" "''example.com''" "''/health''" "''get''"]
  from t1 m1 n have a: "wildcard_expr ''.'' = [CHR ''^'', CHR 0x5C, CHR ''.'', CHR ''$'']"
    by blast
  from t2 m2 have "wildcard_expr ''a'' = [CHR ''^'', CHR ''a'', CHR ''$'']" by blast
  then have b: "wildcard_expr ''a'' = ''^a$''" by simp
  from t1 ok have q1: "matchPath reference_regexp (snd (Compile reference_regexp api_filter)) ''/api/users'' =
          ((IncludePaths api_filter = []
            \<or> (\<exists>p \<in> set (IncludePaths api_filter). MatchString reference_regexp (wildcard_expr p) ''/api/users''))
           \<and> (\<forall>p \<in> set (ExcludePaths api_filter). \<not> MatchString reference_regexp (wildcard_expr p) ''/api/users''))"
    and r1: "Filter_matchHost reference_regexp (snd (Compile reference_regexp api_filter)) ''example.com'' =
          ((IncludeHosts api_filter = []
            \<or> (\<exists>p \<in> set (IncludeHosts api_filter). MatchString reference_regexp (wildcard_expr p) ''example.com''))
           \<and> (\<forall>p \<in> set (ExcludeHosts api_filter). \<not> MatchString reference_regexp (wildcard_expr p) ''example.com''))"
    by blast+
  from q1 e1 e2
  have p1: "matchPath reference_regexp (snd (Compile reference_regexp api_filter)) ''/api/users''"
    unfolding f by simp
  from r1
  have h1: "Filter_matchHost reference_regexp (snd (Compile reference_regexp api_filter)) ''example.com''"
    unfolding f by simp
  from t2 ok have q2: "matchPath reference_regexp (snd (Compile reference_regexp api_filter)) ''/api/app.js'' =
          ((IncludePaths api_filter = []
            \<or> (\<exists>p \<in> set (IncludePaths api_filter). MatchString reference_regexp (wildcard_expr p) ''/api/app.js''))
           \<and> (\<forall>p \<in> set (ExcludePaths api_filter). \<not> MatchString reference_regexp (wildcard_expr p) ''/api/app.js''))"
    by blast
  from q2 e3
  have p2: "\<not> matchPath reference_regexp (snd (Compile reference_regexp api_filter)) ''/api/app.js''"
    unfolding f by simp
  from t3 ok have q3: "matchPath reference_regexp (snd (Compile reference_regexp api_filter)) ''/health'' =
          ((IncludePaths api_filter = []
            \<or> (\<exists>p \<in> set (IncludePaths api_filter). MatchString reference_regexp (wildcard_expr p) ''/health''))
           \<and> (\<forall>p \<in> set (ExcludePaths api_filter). \<not> MatchString reference_regexp (wildcard_expr p) ''/health''))"
    by blast
  from q3 e4
  have p3: "\<not> matchPath reference_regexp (snd (Compile reference_regexp api_filter)) ''/health''"
    unfolding f by simp
  from t4 have "matchMethod (NewFilter\<lparr>IncludeMethods := [''GET'']\<rparr>) (strings_ToUpper ''get'')
                  = matchMethod (NewFilter\<lparr>IncludeMethods := [''GET'']\<rparr>) ''get''"
    by blast
  moreover have "matchMethod (NewFilter\<lparr>IncludeMethods := [''GET'']\<rparr>) (strings_ToUpper ''get'')"
    unfolding u by code_simp
  ultimately have mm: "matchMethod (NewFilter\<lparr>IncludeMethods := [''GET'']\<rparr>) ''get''"
    by simp
  from m1 a m2 b ok p1 p2 p3 h1 mm show ?thesis by blast
qed

end
